theory Spec2Isabelle
  imports Complex_Main "HOL-Library.Char_ord" "HOL-Library.List_Lexorder"
begin

section \<open>Values of the script\<close>

text \<open>
  The theory embeds \<open>scripts/audit.mjs\<close>. A JavaScript string is a sequence of UTF-16 code
  units; the model covers the code units below 256 and writes them as \<^typ>\<open>char\<close>, so
  skill names, file names and log texts are \<^typ>\<open>string\<close>s. Everything the script obtains
  from the host (directory listings, file contents and modification times, the clock,
  \<open>JSON.parse\<close>, \<open>localeCompare\<close>, the output of \<open>clawdhub\<close>) is an argument of the function
  that reads it. An exception is the left summand of the result.
\<close>

datatype error = SyntaxError | RangeError | IOError | OutsideFragment

text \<open>
  \<open>OutsideFragment\<close> is not an exception of the script: \<open>parseTerms\<close> below returns it for a
  pattern source that leaves the part of the \<open>RegExp\<close> grammar modelled here, and nothing is
  stated about such a pattern.
\<close>

text \<open>
  What \<open>exists\<close> followed by \<open>readdir\<close> finds at a path: nothing (\<open>exists\<close> is false), something
  \<open>readdir\<close> rejects, or the entries of a directory.
\<close>

datatype 'a listing = Absent | NotListable | Listing "'a list"

definition codeUnit :: "char \<Rightarrow> nat" where
  "codeUnit c = of_char c"

text \<open>The classes \<open>\d\<close>, \<open>\w\<close> and \<open>\s\<close> of a \<open>RegExp\<close> without the \<open>u\<close> flag, and the line terminators.\<close>

definition isDigit :: "char \<Rightarrow> bool" where
  "isDigit c = (48 \<le> codeUnit c \<and> codeUnit c \<le> 57)"

definition isWordChar :: "char \<Rightarrow> bool" where
  "isWordChar c =
     ((65 \<le> codeUnit c \<and> codeUnit c \<le> 90) \<or> (97 \<le> codeUnit c \<and> codeUnit c \<le> 122)
      \<or> isDigit c \<or> c = CHR ''_'')"

definition isLineTerminator :: "char \<Rightarrow> bool" where
  "isLineTerminator c = (codeUnit c = 10 \<or> codeUnit c = 13)"

definition isSpace :: "char \<Rightarrow> bool" where
  "isSpace c = (codeUnit c \<in> {9, 10, 11, 12, 13, 32, 160})"

text \<open>
  \<open>Canonicalize\<close> of the \<open>i\<close> flag (upper-casing of a single code unit) and
  \<open>String.prototype.toLowerCase\<close>, on code units below 256.
\<close>

definition canonicalize :: "char \<Rightarrow> char" where
  "canonicalize c =
     (let n = codeUnit c in
      if (97 \<le> n \<and> n \<le> 122) \<or> (224 \<le> n \<and> n \<le> 254 \<and> n \<noteq> 247)
      then char_of (n - 32) else c)"

definition toLowerCase :: "string \<Rightarrow> string" where
  "toLowerCase s =
     map (\<lambda>c. let n = codeUnit c in
                if (65 \<le> n \<and> n \<le> 90) \<or> (192 \<le> n \<and> n \<le> 222 \<and> n \<noteq> 215)
                then char_of (n + 32) else c) s"

text \<open>
  The relational operators on two strings compare code units from the left; a proper
  prefix is the smaller string, and \<open>a >= b\<close> is the negation of \<open>a < b\<close>.
\<close>

fun jsLess :: "string \<Rightarrow> string \<Rightarrow> bool" where
  "jsLess a [] = False"
| "jsLess [] (y # ys) = True"
| "jsLess (x # xs) (y # ys) =
     (if codeUnit x = codeUnit y then jsLess xs ys else codeUnit x < codeUnit y)"

definition jsGe :: "string \<Rightarrow> string \<Rightarrow> bool" where
  "jsGe a b = (\<not> jsLess a b)"

definition endsWith :: "string \<Rightarrow> string \<Rightarrow> bool" where
  "endsWith s suf = (length suf \<le> length s \<and> drop (length s - length suf) s = suf)"

definition trim :: "string \<Rightarrow> string" where
  "trim s = rev (dropWhile isSpace (rev (dropWhile isSpace s)))"

definition newline :: char where
  "newline = CHR 0x0A"

text \<open>\<open>s.split("\n")\<close>: the pieces between the separators, one more than there are separators.\<close>

fun splitOn :: "char \<Rightarrow> string \<Rightarrow> string list" where
  "splitOn d [] = [[]]"
| "splitOn d (c # cs) =
     (if c = d then [] # splitOn d cs
      else (case splitOn d cs of [] \<Rightarrow> [[c]] | l # ls \<Rightarrow> (c # l) # ls))"

text \<open>
  The values \<open>JSON.parse\<close> returns. \<open>truthy\<close> is the conversion to a boolean that \<open>||\<close>, \<open>!\<close> and
  \<open>if\<close> apply; \<open>undefined\<close> is \<open>None\<close> of an option.
\<close>

datatype json =
  JNull | JBool bool | JNum rat | JStr string | JArr "json list" | JObj "(string \<times> json) list"

fun truthy :: "json \<Rightarrow> bool" where
  "truthy JNull = False"
| "truthy (JBool b) = b"
| "truthy (JNum n) = (n \<noteq> 0)"
| "truthy (JStr s) = (s \<noteq> [])"
| "truthy (JArr xs) = True"
| "truthy (JObj kvs) = True"

text \<open>\<open>v || d\<close> for a value \<open>v\<close> that may be \<open>undefined\<close>.\<close>

definition valueOr :: "json option \<Rightarrow> json \<Rightarrow> json" where
  "valueOr v d = (case v of Some j \<Rightarrow> if truthy j then j else d | None \<Rightarrow> d)"

text \<open>
  \<open>val[k]\<close> for the keys the script reads (\<open>clawdbot\<close>, \<open>requires\<close>, \<open>bins\<close>, \<open>env\<close>, \<open>emoji\<close>):
  only an object has such a property.
\<close>

fun property :: "json \<Rightarrow> string \<Rightarrow> json option" where
  "property (JObj kvs) k = map_of kvs k"
| "property v k = None"

text \<open>\<open>getNestedField\<close> (lines 57--65), the path already split at the dots.\<close>

fun getNestedField :: "json option \<Rightarrow> string list \<Rightarrow> json option" where
  "getNestedField val [] = val"
| "getNestedField None (k # ks) = None"
| "getNestedField (Some v) (k # ks) =
     (if \<not> truthy v \<or> (case v of JObj kvs \<Rightarrow> False | JArr xs \<Rightarrow> False | _ \<Rightarrow> True)
      then None else getNestedField (property v k) ks)"

text \<open>
  A \<open>Map\<close> (lines 179--185) and a plain object used as a dictionary (lines 38--47), as an
  association list in insertion order: \<open>set\<close> on a key that is present replaces the value
  in place, on a new key it appends.
\<close>

fun mapSet :: "string \<Rightarrow> 'v \<Rightarrow> (string \<times> 'v) list \<Rightarrow> (string \<times> 'v) list" where
  "mapSet k v [] = [(k, v)]"
| "mapSet k v ((k', v') # m) = (if k = k' then (k, v) # m else (k', v') # mapSet k v m)"

text \<open>
  \<open>Array.prototype.sort\<close> with a comparator is stable; insertion from the right in front of
  the first element that does not compare smaller is a stable sort.
\<close>

fun insertBy :: "('a \<Rightarrow> 'a \<Rightarrow> int) \<Rightarrow> 'a \<Rightarrow> 'a list \<Rightarrow> 'a list" where
  "insertBy cmp x [] = [x]"
| "insertBy cmp x (y # ys) = (if cmp x y \<le> 0 then x # y # ys else y # insertBy cmp x ys)"

definition sortBy :: "('a \<Rightarrow> 'a \<Rightarrow> int) \<Rightarrow> 'a list \<Rightarrow> 'a list" where
  "sortBy cmp xs = foldr (insertBy cmp) xs []"

section \<open>Registry lookup and recommendation\<close>

record hub =
  available :: bool
  version :: string

text \<open>
  \<open>trimmed.split(/\s+/)\<close> for a trimmed line: its maximal runs of characters that are not
  white space (the empty line has no token; the script's \<open>parts[0]\<close> is then the empty
  string, which \<open>&&\<close> rejects like a missing one).
\<close>

function tokens :: "string \<Rightarrow> string list" where
  "tokens s =
     (case dropWhile isSpace s of
        [] \<Rightarrow> []
      | c # cs \<Rightarrow> (c # takeWhile (\<lambda>x. \<not> isSpace x) cs) # tokens (dropWhile (\<lambda>x. \<not> isSpace x) cs))"
  by pat_completeness auto
termination
proof (relation "measure length")
  show "wf (measure length)" by simp
next
  fix s :: string and c cs
  assume "dropWhile isSpace s = c # cs"
  then have "length (c # cs) \<le> length s"
    by (metis length_dropWhile_le)
  moreover have "length (dropWhile (\<lambda>x. \<not> isSpace x) cs) \<le> length cs"
    by (rule length_dropWhile_le)
  ultimately show "(dropWhile (\<lambda>x. \<not> isSpace x) cs, s) \<in> measure length" by simp
qed

text \<open>
  Lines 162--165 for one output line: the version when the first token is the skill name
  (compared in lower case), with one leading \<open>v\<close> removed; \<open>"unknown"\<close> when the second token
  is missing or empty after that.
\<close>

definition lineVersion :: "string \<Rightarrow> string \<Rightarrow> string option" where
  "lineVersion skillName line =
     (case tokens (trim line) of
        [] \<Rightarrow> None
      | p0 # ps \<Rightarrow>
          if toLowerCase p0 = toLowerCase skillName then
            (case ps of
               [] \<Rightarrow> Some ''unknown''
             | p1 # ps' \<Rightarrow>
                 (let ver = (if take 1 p1 = ''v'' then drop 1 p1 else p1)
                  in Some (if ver = [] then ''unknown'' else ver)))
          else None)"

fun firstVersion :: "string \<Rightarrow> string list \<Rightarrow> string option" where
  "firstVersion skillName [] = None"
| "firstVersion skillName (line # rest) =
     (case lineVersion skillName line of
        Some ver \<Rightarrow> Some ver
      | None \<Rightarrow> firstVersion skillName rest)"

text \<open>
  \<open>checkHubVersion\<close> (lines 150--171). \<open>hasClawdhub\<close> is \<open>commandExists("clawdhub")\<close>;
  \<open>searchOutput\<close> is what \<open>clawdhub search\<close> printed for the skill, \<open>None\<close> when \<open>execSync\<close>
  threw or timed out.
\<close>

definition checkHubVersion :: "bool \<Rightarrow> string option \<Rightarrow> string \<Rightarrow> hub" where
  "checkHubVersion hasClawdhub searchOutput skillName =
     (if \<not> hasClawdhub then \<lparr>available = False, version = ''n/a''\<rparr>
      else case searchOutput of
        None \<Rightarrow> \<lparr>available = True, version = ''error''\<rparr>
      | Some output \<Rightarrow>
          (case firstVersion skillName (splitOn newline output) of
             Some ver \<Rightarrow> \<lparr>available = True, version = ver\<rparr>
           | None \<Rightarrow> \<lparr>available = True, version = ''not found''\<rparr>))"

text \<open>Lines 189 and 197: the lookup runs only when it is not skipped and the tool exists.\<close>

definition hubOf :: "bool \<Rightarrow> bool \<Rightarrow> string option \<Rightarrow> string \<Rightarrow> hub" where
  "hubOf skipHub hasClawdhub searchOutput skillName =
     (if \<not> skipHub \<and> hasClawdhub then checkHubVersion hasClawdhub searchOutput skillName
      else \<lparr>available = False, version = ''n/a''\<rparr>)"

text \<open>
  The result of \<open>checkHealth\<close> (line 147): the required executables and environment
  variables that are missing, and the declared ones.
\<close>

record health =
  missingBins :: "string list"
  missingEnvs :: "string list"
  bins :: "string list"
  envs :: "string list"

text \<open>
  The four strings \<open>"keep"\<close>, \<open>"update"\<close>, \<open>"review"\<close> and \<open>"remove"\<close>, which are the values of
  \<open>rec\<close> and the keys of the tally.
\<close>

datatype recommendation = Keep | Update | Review | Remove

text \<open>Lines 201--213 of \<open>main\<close>; \<open>usage\<close> is the count \<open>checkUsage\<close> returned.\<close>

definition recommend :: "health \<Rightarrow> nat \<Rightarrow> hub \<Rightarrow> recommendation" where
  "recommend h usage hb =
     (if length (missingBins h) > 0 then Remove
      else if version hb \<noteq> ''not found'' \<and> version hb \<noteq> ''n/a'' \<and> version hb \<noteq> ''error''
        then (if usage > 0 then Keep else Review)
      else if usage > 0 then Keep
      else if length (missingEnvs h) > 0 then Review
      else Review)"

text \<open>
  Lines 219--220: \<open>tally = { keep: 0, update: 0, review: 0, remove: 0 }\<close> and
  \<open>for (const r of results) tally[r.rec]++\<close>.
\<close>

record tally =
  keep :: nat
  update :: nat
  review :: nat
  remove :: nat

definition tally0 :: tally where
  "tally0 = \<lparr>keep = 0, update = 0, review = 0, remove = 0\<rparr>"

fun tallyInc :: "recommendation \<Rightarrow> tally \<Rightarrow> tally" where
  "tallyInc Keep t = t\<lparr>keep := keep t + 1\<rparr>"
| "tallyInc Update t = t\<lparr>update := update t + 1\<rparr>"
| "tallyInc Review t = t\<lparr>review := review t + 1\<rparr>"
| "tallyInc Remove t = t\<lparr>remove := remove t + 1\<rparr>"

definition tallyOf :: "recommendation list \<Rightarrow> tally" where
  "tallyOf recs = fold tallyInc recs tally0"

section \<open>The usage scanner\<close>

subsection \<open>The pattern \<open>new RegExp(skillName.replace(/-/g, "[\\s-]"), "gi")\<close>\<close>

text \<open>\<open>skillName.replace(/-/g, "[\\s-]")\<close>: every hyphen becomes the five characters \<open>[\s-]\<close>.\<close>

definition hyphenClass :: string where
  "hyphenClass = [CHR ''['', CHR 0x5C, CHR ''s'', CHR ''-'', CHR '']'']"

fun replaceHyphens :: "string \<Rightarrow> string" where
  "replaceHyphens [] = []"
| "replaceHyphens (c # cs) =
     (if c = CHR ''-'' then hyphenClass @ replaceHyphens cs else c # replaceHyphens cs)"

text \<open>
  The part of the pattern grammar that is modelled: a pattern is a sequence of terms, a term
  is an atom with an optional greedy quantifier \<open>*\<close>, \<open>+\<close> or \<open>?\<close>, and an atom is a
  character that is not a syntax character (it matches itself, up to case under the \<open>i\<close>
  flag), the dot, or the class \<open>[\s-]\<close> that the replacement writes.
\<close>

datatype atom = Lit char | SepClass | AnyChar

datatype quantifier = Once | Star | Plus | Opt

type_synonym regex = "(atom \<times> quantifier) list"

definition isQuantChar :: "char \<Rightarrow> bool" where
  "isQuantChar c = (c = CHR ''*'' \<or> c = CHR ''+'' \<or> c = CHR ''?'')"

definition isSyntaxChar :: "char \<Rightarrow> bool" where
  "isSyntaxChar c = (c \<in> set (''^$.*+?()[]{}|'' @ [CHR 0x5C]))"

definition quantOf :: "char \<Rightarrow> quantifier" where
  "quantOf c = (if c = CHR ''*'' then Star else if c = CHR ''+'' then Plus else Opt)"

text \<open>The atom at the head of a pattern source and the source after it; \<open>None\<close> outside the fragment.\<close>

fun parseAtom :: "string \<Rightarrow> (atom \<times> string) option" where
  "parseAtom [] = None"
| "parseAtom (c # cs) =
     (if c = CHR ''.'' then Some (AnyChar, cs)
      else if c = CHR ''['' then
        (if take 4 cs = tl hyphenClass then Some (SepClass, drop 4 cs) else None)
      else if isSyntaxChar c then None
      else Some (Lit c, cs))"

fun consTerm :: "atom \<times> quantifier \<Rightarrow> error + regex \<Rightarrow> error + regex" where
  "consTerm t (Inl e) = Inl e"
| "consTerm t (Inr r) = Inr (t # r)"

lemma parseAtom_shorter: "parseAtom s = Some (a, rest) \<Longrightarrow> length rest < length s"
  by (cases s) (auto split: if_splits)

text \<open>
  The constructor reads the source from the left. A quantifier character where an atom
  must start has nothing to repeat: the constructor throws a \<open>SyntaxError\<close>, whatever
  follows. A lazy quantifier and every other syntax character leave the fragment.
\<close>

function parseTerms :: "string \<Rightarrow> error + regex" where
  "parseTerms [] = Inr []"
| "parseTerms (c # cs) =
     (if isQuantChar c then Inl SyntaxError
      else case parseAtom (c # cs) of
        None \<Rightarrow> Inl OutsideFragment
      | Some (a, rest) \<Rightarrow>
          (case rest of
             [] \<Rightarrow> Inr [(a, Once)]
           | q # rest' \<Rightarrow>
               if isQuantChar q then
                 (if take 1 rest' = ''?'' then Inl OutsideFragment
                  else consTerm (a, quantOf q) (parseTerms rest'))
               else consTerm (a, Once) (parseTerms rest)))"
  by pat_completeness auto
termination
  by (relation "measure length") (auto simp del: parseAtom.simps dest!: parseAtom_shorter)

text \<open>Line 111.\<close>

definition usagePattern :: "string \<Rightarrow> error + regex" where
  "usagePattern skillName = parseTerms (replaceHyphens skillName)"

fun atomMatches :: "atom \<Rightarrow> char \<Rightarrow> bool" where
  "atomMatches (Lit p) c = (canonicalize p = canonicalize c)"
| "atomMatches SepClass c = (isSpace c \<or> c = CHR ''-'')"
| "atomMatches AnyChar c = (\<not> isLineTerminator c)"

text \<open>
  The backtracking matcher at one position of the text: the number of characters of the
  first match in the order of the engine (a greedy quantifier tries the longer match
  first), \<open>None\<close> when there is none.
\<close>

fun matchHere :: "regex \<Rightarrow> string \<Rightarrow> nat option" where
  "matchHere [] s = Some 0"
| "matchHere ((a, Once) # r) [] = None"
| "matchHere ((a, Once) # r) (c # cs) =
     (if atomMatches a c then map_option Suc (matchHere r cs) else None)"
| "matchHere ((a, Plus) # r) [] = None"
| "matchHere ((a, Plus) # r) (c # cs) =
     (if atomMatches a c then map_option Suc (matchHere ((a, Star) # r) cs) else None)"
| "matchHere ((a, Star) # r) [] = matchHere r []"
| "matchHere ((a, Star) # r) (c # cs) =
     (if atomMatches a c then
        (case matchHere ((a, Star) # r) cs of
           Some n \<Rightarrow> Some (Suc n)
         | None \<Rightarrow> matchHere r (c # cs))
      else matchHere r (c # cs))"
| "matchHere ((a, Opt) # r) [] = matchHere r []"
| "matchHere ((a, Opt) # r) (c # cs) =
     (if atomMatches a c then
        (case matchHere r cs of
           Some n \<Rightarrow> Some (Suc n)
         | None \<Rightarrow> matchHere r (c # cs))
      else matchHere r (c # cs))"

text \<open>
  \<open>content.match(pattern)\<close> with the \<open>g\<close> flag: the search restarts where the last match ended,
  one character further after an empty match, and stops after the end of the text. The
  result is \<open>null\<close> when the count is 0, else an array of that length.
\<close>

function countFrom :: "regex \<Rightarrow> string \<Rightarrow> nat" where
  "countFrom re [] = (case matchHere re [] of None \<Rightarrow> 0 | Some n \<Rightarrow> 1)"
| "countFrom re (c # cs) =
     (case matchHere re (c # cs) of
        None \<Rightarrow> countFrom re cs
      | Some n \<Rightarrow> Suc (countFrom re (drop (max 1 n) (c # cs))))"
  by pat_completeness auto
termination
  by (relation "measure (\<lambda>(re, s). length s)") auto

definition countMatches :: "regex \<Rightarrow> string \<Rightarrow> nat" where
  "countMatches re content = countFrom re content"

subsection \<open>\<open>checkUsage\<close>\<close>

text \<open>
  An entry of \<open>MEMORY_DIR\<close> as \<open>readdir\<close> lists it: its name, the modification time \<open>stat\<close>
  returns (milliseconds; \<open>None\<close> when \<open>stat\<close> throws) and the text \<open>readFile\<close> returns
  (\<open>None\<close> when it throws, as it does for a subdirectory).
\<close>

record logEntry =
  fileName :: string
  fileStat :: "int option"
  fileText :: "string option"

definition regularFile :: "string \<times> int \<times> string \<Rightarrow> logEntry" where
  "regularFile f =
     (case f of (n, t, c) \<Rightarrow> \<lparr>fileName = n, fileStat = Some t, fileText = Some c\<rparr>)"

text \<open>
  Lines 106--108: the cutoff \<open>Date\<close> (as milliseconds) and \<open>cutoff.toISOString().slice(0, 10)\<close>.
  The environment of the scan holds the listing of \<open>MEMORY_DIR\<close>, \<open>DAYS_BACK\<close> (\<open>None\<close> for the
  \<open>NaN\<close> that \<open>parseInt\<close> returns on a text that is no number) and the clock: \<open>dateBefore n\<close> is
  the cutoff \<open>n\<close> days before now, \<open>None\<close> for an invalid \<open>Date\<close>, on which \<open>toISOString\<close>
  throws a \<open>RangeError\<close>.
\<close>

record cutoff =
  cutoffTime :: int
  cutoffStr :: string

record usageEnv =
  memoryDir :: "logEntry listing"
  daysBack :: "int option"
  dateBefore :: "int \<Rightarrow> cutoff option"

definition cutoffDate :: "usageEnv \<Rightarrow> cutoff option" where
  "cutoffDate env = (case daysBack env of None \<Rightarrow> None | Some n \<Rightarrow> dateBefore env n)"

text \<open>\<open>f.match(/^(\d{4}-\d{2}-\d{2})\.md$/)\<close> (line 115) and its first group.\<close>

definition datedName :: "string \<Rightarrow> bool" where
  "datedName f =
     (length f = 13 \<and> list_all isDigit (take 4 f) \<and> f ! 4 = CHR ''-''
      \<and> list_all isDigit (take 2 (drop 5 f)) \<and> f ! 7 = CHR ''-''
      \<and> list_all isDigit (take 2 (drop 8 f)) \<and> drop 10 f = ''.md'')"

definition dateMatch :: "string \<Rightarrow> string option" where
  "dateMatch f = (if datedName f then Some (take 10 f) else None)"

text \<open>Lines 118--120 and 130--132: read the file and count the matches.\<close>

definition readAndCount :: "regex \<Rightarrow> logEntry \<Rightarrow> error + nat" where
  "readAndCount re f =
     (case fileText f of
        None \<Rightarrow> Inl IOError
      | Some content \<Rightarrow> Inr (countMatches re content))"

text \<open>The loop of lines 113--135, with the running \<open>count\<close>.\<close>

fun scanFiles :: "regex \<Rightarrow> cutoff \<Rightarrow> logEntry list \<Rightarrow> nat \<Rightarrow> error + nat" where
  "scanFiles re cutoff [] count = Inr count"
| "scanFiles re cutoff (f # fs) count =
     (case dateMatch (fileName f) of
        Some d \<Rightarrow>
          (if jsGe d (cutoffStr cutoff) then
             (case readAndCount re f of
                Inl e \<Rightarrow> Inl e
              | Inr n \<Rightarrow> scanFiles re cutoff fs (count + n))
           else scanFiles re cutoff fs count)
      | None \<Rightarrow>
          (if endsWith (fileName f) ''.log'' \<or> endsWith (fileName f) ''.md'' then
             (case fileStat f of
                None \<Rightarrow> Inl IOError
              | Some mtime \<Rightarrow>
                  (if mtime \<ge> cutoffTime cutoff then
                     (case readAndCount re f of
                        Inl e \<Rightarrow> Inl e
                      | Inr n \<Rightarrow> scanFiles re cutoff fs (count + n))
                   else scanFiles re cutoff fs count))
           else scanFiles re cutoff fs count))"

text \<open>
  \<open>checkUsage\<close> (lines 102--137), in the order of the script: the existence check, the
  cutoff, \<open>readdir\<close>, the pattern, the loop.
\<close>

definition checkUsage :: "usageEnv \<Rightarrow> string \<Rightarrow> error + nat" where
  "checkUsage env skillName =
     (case memoryDir env of
        Absent \<Rightarrow> Inr 0
      | NotListable \<Rightarrow>
          (case cutoffDate env of None \<Rightarrow> Inl RangeError | Some cutoff \<Rightarrow> Inl IOError)
      | Listing files \<Rightarrow>
          (case cutoffDate env of
             None \<Rightarrow> Inl RangeError
           | Some cutoff \<Rightarrow>
               (case usagePattern skillName of
                  Inl e \<Rightarrow> Inl e
                | Inr pattern \<Rightarrow> scanFiles pattern cutoff files 0)))"

section \<open>The skill repository reader\<close>

subsection \<open>\<open>parseFrontmatter\<close>\<close>

text \<open>
  \<open>content.match(/^---\n([\s\S]*?)\n---/)\<close> (line 35): the content starts with \<open>---\<close> and a
  newline, and the group is the shortest text after them that a newline and \<open>---\<close> follow.
\<close>

fun untilClose :: "string \<Rightarrow> string option" where
  "untilClose [] = None"
| "untilClose (c # cs) =
     (if take 4 (c # cs) = newline # ''---'' then Some []
      else map_option ((#) c) (untilClose cs))"

definition headerBody :: "string \<Rightarrow> string option" where
  "headerBody content =
     (if take 4 content = ''---'' @ [newline] then untilClose (drop 4 content) else None)"

text \<open>
  \<open>line.match(/^(\w[\w-]*):\s*(.+)/)\<close> (line 40). The key is the longest run of word
  characters and hyphens after a first word character, and a colon must follow it.
  \<open>lineKey\<close> returns the key and the text after the colon.
\<close>

definition lineKey :: "string \<Rightarrow> (string \<times> string) option" where
  "lineKey line =
     (case line of
        [] \<Rightarrow> None
      | c # cs \<Rightarrow>
          if isWordChar c then
            (case dropWhile (\<lambda>x. isWordChar x \<or> x = CHR ''-'') cs of
               [] \<Rightarrow> None
             | d # rest \<Rightarrow>
                 if d = CHR '':''
                 then Some (c # takeWhile (\<lambda>x. isWordChar x \<or> x = CHR ''-'') cs, rest)
                 else None)
          else None)"

text \<open>
  \<open>\s*(.+)\<close> on the text after the colon: the white space is skipped greedily and given
  back one character at a time until the group, which needs one character that is no
  line terminator, can start; the group runs to the next line terminator.
\<close>

definition lineValue :: "string \<Rightarrow> string option" where
  "lineValue r =
     (case filter (\<lambda>j. j < length r \<and> \<not> isLineTerminator (r ! j))
             (rev [0..<Suc (length (takeWhile isSpace r))]) of
        [] \<Rightarrow> None
      | j # js \<Rightarrow> Some (takeWhile (\<lambda>c. \<not> isLineTerminator c) (drop j r)))"

text \<open>Lines 44--46: a value that starts and ends with the same quote loses both.\<close>

definition stripQuotes :: "string \<Rightarrow> string" where
  "stripQuotes val =
     (if val \<noteq> [] \<and> ((hd val = CHR 0x22 \<and> last val = CHR 0x22)
                     \<or> (hd val = CHR 0x27 \<and> last val = CHR 0x27))
      then butlast (tl val) else val)"

definition parseLine :: "string \<Rightarrow> (string \<times> string) option" where
  "parseLine line =
     (case lineKey line of
        None \<Rightarrow> None
      | Some (k, r) \<Rightarrow>
          (case lineValue r of
             None \<Rightarrow> None
           | Some v \<Rightarrow> Some (k, stripQuotes (trim v))))"

text \<open>
  \<open>result[m[1]] = val\<close> (line 47). Assigning a string to the key \<open>__proto__\<close> of an object
  literal stores nothing.
\<close>

definition assignLine :: "string \<Rightarrow> (string \<times> json) list \<Rightarrow> (string \<times> json) list" where
  "assignLine line result =
     (case parseLine line of
        None \<Rightarrow> result
      | Some (k, val) \<Rightarrow> if k = ''__proto__'' then result else mapSet k (JStr val) result)"

text \<open>
  \<open>parseFrontmatter\<close> (lines 34--55); the result object is the association list of its own
  properties. \<open>jsonParse\<close> is \<open>JSON.parse\<close>, \<open>None\<close> when it throws.
\<close>

definition parseFrontmatter :: "(string \<Rightarrow> json option) \<Rightarrow> string \<Rightarrow> (string \<times> json) list" where
  "parseFrontmatter jsonParse content =
     (case headerBody content of
        None \<Rightarrow> []
      | Some yaml \<Rightarrow>
          (let result = fold assignLine (splitOn newline yaml) []
           in case map_of result ''metadata'' of
                Some (JStr md) \<Rightarrow>
                  if md \<noteq> [] then
                    mapSet ''_meta'' (case jsonParse md of None \<Rightarrow> JObj [] | Some j \<Rightarrow> j) result
                  else result
              | _ \<Rightarrow> result))"

subsection \<open>\<open>getSkillsFromDir\<close> and the merge in \<open>main\<close>\<close>

record skill =
  dirName :: string
  name :: string
  description :: string
  meta :: json
  path :: string

text \<open>\<open>{ ...s, source: dirLabel }\<close> (line 184).\<close>

record skillEntry = skill +
  source :: string

definition withSource :: "string \<Rightarrow> skill \<Rightarrow> skillEntry" where
  "withSource dirLabel s = skill.extend s (skillEntry.fields dirLabel)"

text \<open>\<open>fm.name || entry.name\<close> and \<open>fm.description || ""\<close>: these two properties are strings when present.\<close>

definition stringOr :: "json option \<Rightarrow> string \<Rightarrow> string" where
  "stringOr v d = (case v of Some (JStr s) \<Rightarrow> if s = [] then d else s | _ \<Rightarrow> d)"

text \<open>\<open>join(dir, entry.name, "SKILL.md")\<close> for a resolved directory path.\<close>

definition joinPath :: "string \<Rightarrow> string \<Rightarrow> string" where
  "joinPath dir n = (if dir = ''/'' then [] else dir) @ ''/'' @ n @ ''/SKILL.md''"

text \<open>Lines 88--96: the record pushed for a subdirectory whose \<open>SKILL.md\<close> has the given content.\<close>

definition makeSkill :: "(string \<Rightarrow> json option) \<Rightarrow> string \<Rightarrow> string \<Rightarrow> string \<Rightarrow> skill" where
  "makeSkill jsonParse dir entryName content =
     (let fm = parseFrontmatter jsonParse content in
      \<lparr>dirName = entryName,
       name = stringOr (map_of fm ''name'') entryName,
       description = stringOr (map_of fm ''description'') [],
       meta = valueOr (map_of fm ''_meta'') (JObj []),
       path = joinPath dir entryName\<rparr>)"

text \<open>
  What the script finds at \<open>SKILL.md\<close> in a subdirectory: nothing (\<open>exists\<close> is false),
  something \<open>readFile\<close> throws on, or a text.
\<close>

datatype fileState = Missing | Unreadable | Readable string

record dirent =
  direntName :: string
  isDirectory :: bool
  skillFile :: fileState

text \<open>
  A configured root: its resolved path, the label \<open>dir.replace(homedir(), "~")\<close> and what
  is found there.
\<close>

record skillRoot =
  rootPath :: string
  rootLabel :: string
  rootEntries :: "dirent listing"

text \<open>The loop of lines 84--98.\<close>

fun readSkills :: "(string \<Rightarrow> json option) \<Rightarrow> string \<Rightarrow> dirent list \<Rightarrow> error + skill list" where
  "readSkills jsonParse dir [] = Inr []"
| "readSkills jsonParse dir (e # es) =
     (if \<not> isDirectory e then readSkills jsonParse dir es
      else case skillFile e of
        Missing \<Rightarrow> readSkills jsonParse dir es
      | Unreadable \<Rightarrow> Inl IOError
      | Readable content \<Rightarrow>
          (case readSkills jsonParse dir es of
             Inl err \<Rightarrow> Inl err
           | Inr skills \<Rightarrow> Inr (makeSkill jsonParse dir (direntName e) content # skills)))"

definition getSkillsFromDir :: "(string \<Rightarrow> json option) \<Rightarrow> skillRoot \<Rightarrow> error + skill list" where
  "getSkillsFromDir jsonParse r =
     (case rootEntries r of
        Absent \<Rightarrow> Inr []
      | NotListable \<Rightarrow> Inl IOError
      | Listing entries \<Rightarrow> readSkills jsonParse (rootPath r) entries)"

text \<open>Lines 179--186: the roots in the configured order, every skill set under its directory name.\<close>

fun collectSkills ::
  "(string \<Rightarrow> json option) \<Rightarrow> skillRoot list \<Rightarrow> (string \<times> skillEntry) list
     \<Rightarrow> error + (string \<times> skillEntry) list" where
  "collectSkills jsonParse [] skillMap = Inr skillMap"
| "collectSkills jsonParse (r # rs) skillMap =
     (case getSkillsFromDir jsonParse r of
        Inl err \<Rightarrow> Inl err
      | Inr skills \<Rightarrow>
          collectSkills jsonParse rs
            (fold (\<lambda>s. mapSet (dirName s) (withSource (rootLabel r) s)) skills skillMap))"

text \<open>
  Line 188: the values of the map, sorted by \<open>a.dirName.localeCompare(b.dirName)\<close>. The
  script pushes one result per element (lines 193--216) and prints one table row per
  result (lines 247--276), so this list is the sequence of report rows.
\<close>

definition allSkills ::
  "(string \<Rightarrow> string \<Rightarrow> int) \<Rightarrow> (string \<Rightarrow> json option) \<Rightarrow> skillRoot list
     \<Rightarrow> error + skillEntry list" where
  "allSkills localeCompare jsonParse roots =
     (case collectSkills jsonParse roots [] of
        Inl err \<Rightarrow> Inl err
      | Inr skillMap \<Rightarrow>
          Inr (sortBy (\<lambda>a b. localeCompare (dirName a) (dirName b)) (map snd skillMap)))"

text \<open>
  Lines 194 and 274: the cell of the \<open>Skill\<close> column. \<open>toStr\<close> is the conversion of a value
  to a string that the template literal applies.
\<close>

definition skillCell :: "(json \<Rightarrow> string) \<Rightarrow> skillEntry \<Rightarrow> string" where
  "skillCell toStr s =
     (let emoji = valueOr (getNestedField (Some (meta s)) [''clawdbot'', ''emoji'']) (JStr [])
      in if truthy emoji then toStr emoji @ '' '' @ dirName s else dirName s)"

text \<open>The \<open>Skill\<close> column and the directory names of the report rows, in the order of the rows.\<close>

definition skillColumn ::
  "(json \<Rightarrow> string) \<Rightarrow> (string \<Rightarrow> string \<Rightarrow> int) \<Rightarrow> (string \<Rightarrow> json option) \<Rightarrow> skillRoot list
     \<Rightarrow> error + string list" where
  "skillColumn toStr localeCompare jsonParse roots =
     (case allSkills localeCompare jsonParse roots of
        Inl err \<Rightarrow> Inl err
      | Inr rows \<Rightarrow> Inr (map (skillCell toStr) rows))"

definition rowKeys ::
  "(string \<Rightarrow> string \<Rightarrow> int) \<Rightarrow> (string \<Rightarrow> json option) \<Rightarrow> skillRoot list
     \<Rightarrow> error + string list" where
  "rowKeys localeCompare jsonParse roots =
     (case allSkills localeCompare jsonParse roots of
        Inl err \<Rightarrow> Inl err
      | Inr rows \<Rightarrow> Inr (map dirName rows))"

section \<open>Notions used in the statements\<close>

text \<open>
  The files of the log directory that the scan includes, for a regular file given by its
  name, modification time and text: a name of the form \<open>YYYY-MM-DD.md\<close> counts by its date
  string, compared in the lexicographic order of strings; any other name ending in
  \<open>.log\<close> or \<open>.md\<close> counts by its modification time.
\<close>

definition included :: "cutoff \<Rightarrow> string \<times> int \<times> string \<Rightarrow> bool" where
  "included cutoff f =
     (case f of (n, mtime, content) \<Rightarrow>
        if datedName n then take 10 n \<ge> cutoffStr cutoff
        else (endsWith n ''.log'' \<or> endsWith n ''.md'') \<and> mtime \<ge> cutoffTime cutoff)"

text \<open>
  An identifier of word characters and hyphens, and a text that is an occurrence of it:
  the same length, every hyphen of the identifier standing for a hyphen or one white-space
  character, every other character for itself in either case.
\<close>

definition plainIdentifier :: "string \<Rightarrow> bool" where
  "plainIdentifier s = list_all (\<lambda>c. isWordChar c \<or> c = CHR ''-'') s"

fun occurrenceOf :: "string \<Rightarrow> string \<Rightarrow> bool" where
  "occurrenceOf [] [] = True"
| "occurrenceOf (c # cs) (t # ts) =
     ((if c = CHR ''-'' then isSpace t \<or> t = CHR ''-'' else canonicalize c = canonicalize t)
      \<and> occurrenceOf cs ts)"
| "occurrenceOf cs ts = False"

text \<open>
  The content of the descriptor of a directory entry, when the entry is a directory with a
  readable \<open>SKILL.md\<close>; the records of one root in the order of its listing; and the
  sequence of all \<open>skillMap.set\<close> calls of a run, root after root.
\<close>

definition descriptor :: "dirent \<Rightarrow> string option" where
  "descriptor e =
     (if isDirectory e then (case skillFile e of Readable content \<Rightarrow> Some content | _ \<Rightarrow> None)
      else None)"

definition skillsIn :: "(string \<Rightarrow> json option) \<Rightarrow> skillRoot \<Rightarrow> skillEntry list" where
  "skillsIn jsonParse r =
     (case rootEntries r of
        Listing entries \<Rightarrow>
          List.map_filter
            (\<lambda>e. map_option
               (\<lambda>content. withSource (rootLabel r)
                  (makeSkill jsonParse (rootPath r) (direntName e) content))
               (descriptor e))
            entries
      | _ \<Rightarrow> [])"

definition writes :: "(string \<Rightarrow> json option) \<Rightarrow> skillRoot list \<Rightarrow> skillEntry list" where
  "writes jsonParse roots = concat (map (skillsIn jsonParse) roots)"

text \<open>The record written last under a directory name: the one of the latest root that has it.\<close>

definition lastWrite :: "skillEntry list \<Rightarrow> string \<Rightarrow> skillEntry option" where
  "lastWrite ws d =
     (case filter (\<lambda>s. dirName s = d) ws of [] \<Rightarrow> None | x # xs \<Rightarrow> Some (last (x # xs)))"

text \<open>The names of the subdirectories, over all roots, in which a \<open>SKILL.md\<close> exists.\<close>

definition skillDirNames :: "skillRoot list \<Rightarrow> string list" where
  "skillDirNames roots =
     concat (map (\<lambda>r. case rootEntries r of
                          Listing entries \<Rightarrow>
                            map direntName
                              (filter (\<lambda>e. isDirectory e \<and> skillFile e \<noteq> Missing) entries)
                        | _ \<Rightarrow> [])
                 roots)"

text \<open>
  A root the run gets through: it is missing, or it can be listed and every \<open>SKILL.md\<close> of
  its subdirectories can be read.
\<close>

definition readableRoot :: "skillRoot \<Rightarrow> bool" where
  "readableRoot r =
     (case rootEntries r of
        Absent \<Rightarrow> True
      | NotListable \<Rightarrow> False
      | Listing entries \<Rightarrow>
          list_all (\<lambda>e. \<not> (isDirectory e \<and> skillFile e = Unreadable)) entries)"

text \<open>What \<open>sort\<close> requires of its comparator: it decides a total preorder.\<close>

definition consistentComparator :: "('a \<Rightarrow> 'a \<Rightarrow> int) \<Rightarrow> bool" where
  "consistentComparator cmp =
     ((\<forall>a b. cmp a b \<le> 0 \<or> cmp b a \<le> 0)
      \<and> (\<forall>a b c. cmp a b \<le> 0 \<and> cmp b c \<le> 0 \<longrightarrow> cmp a c \<le> 0))"

text \<open>A content that begins with a header: \<open>---\<close>, a newline, a body, a newline and \<open>---\<close>.\<close>

definition hasLeadingHeader :: "string \<Rightarrow> bool" where
  "hasLeadingHeader content =
     (\<exists>body rest. content = ''---'' @ [newline] @ body @ [newline] @ ''---'' @ rest)"

text \<open>
  Two descriptors that differ in the \<open>name\<close> field only: every other property of the parsed
  header is the same. Two file states, directory entries, listings and roots are related
  when they are equal but for such descriptors.
\<close>

definition sameButName :: "(string \<Rightarrow> json option) \<Rightarrow> string \<Rightarrow> string \<Rightarrow> bool" where
  "sameButName jsonParse c1 c2 =
     (\<forall>k. k \<noteq> ''name'' \<longrightarrow>
        map_of (parseFrontmatter jsonParse c1) k = map_of (parseFrontmatter jsonParse c2) k)"

fun fileRenamed :: "(string \<Rightarrow> json option) \<Rightarrow> fileState \<Rightarrow> fileState \<Rightarrow> bool" where
  "fileRenamed jsonParse (Readable c1) (Readable c2) = sameButName jsonParse c1 c2"
| "fileRenamed jsonParse f1 f2 = (f1 = f2)"

definition direntRenamed :: "(string \<Rightarrow> json option) \<Rightarrow> dirent \<Rightarrow> dirent \<Rightarrow> bool" where
  "direntRenamed jsonParse e1 e2 =
     (direntName e1 = direntName e2 \<and> isDirectory e1 = isDirectory e2
      \<and> fileRenamed jsonParse (skillFile e1) (skillFile e2))"

fun listingRenamed ::
  "(string \<Rightarrow> json option) \<Rightarrow> dirent listing \<Rightarrow> dirent listing \<Rightarrow> bool" where
  "listingRenamed jsonParse (Listing es1) (Listing es2) = list_all2 (direntRenamed jsonParse) es1 es2"
| "listingRenamed jsonParse l1 l2 = (l1 = l2)"

definition rootRenamed :: "(string \<Rightarrow> json option) \<Rightarrow> skillRoot \<Rightarrow> skillRoot \<Rightarrow> bool" where
  "rootRenamed jsonParse r1 r2 =
     (rootPath r1 = rootPath r2 \<and> rootLabel r1 = rootLabel r2
      \<and> listingRenamed jsonParse (rootEntries r1) (rootEntries r2))"

text \<open>A record with its declared name blanked: all that is left is what the two runs must share.\<close>

definition eraseName :: "'a skill_scheme \<Rightarrow> 'a skill_scheme" where
  "eraseName s = s\<lparr>name := []\<rparr>"

definition plainRegex :: "string \<Rightarrow> regex" where
  "plainRegex s = map (\<lambda>c. (if c = CHR ''-'' then SepClass else Lit c, Once)) s"

section \<open>Auxiliary facts\<close>

subsection \<open>Strings and the scan\<close>

lemma jsLess_iff_less: "jsLess a b \<longleftrightarrow> a < b"
  by (induction a b rule: jsLess.induct) (auto simp: codeUnit_def less_char_def)

lemma jsGe_iff_ge: "jsGe a b \<longleftrightarrow> a \<ge> b"
  by (auto simp: jsGe_def jsLess_iff_less)

lemma scanFiles_step:
  "scanFiles re cutoff (regularFile f # es) count
     = scanFiles re cutoff es
         (count + (if included cutoff f then countMatches re (snd (snd f)) else 0))"
proof -
  obtain n t c where f: "f = (n, t, c)" by (cases f)
  show ?thesis
    by (auto simp add: f regularFile_def readAndCount_def included_def dateMatch_def jsGe_iff_ge)
qed

lemma scanFiles_regular:
  "scanFiles re cutoff (map regularFile fs) count
     = Inr (count + (\<Sum>(n, t, c) \<leftarrow> filter (included cutoff) fs. countMatches re c))"
proof (induction fs arbitrary: count)
  case Nil
  show ?case by simp
next
  case (Cons f fs)
  have "scanFiles re cutoff (map regularFile (f # fs)) count
          = scanFiles re cutoff (map regularFile fs)
              (count + (if included cutoff f then countMatches re (snd (snd f)) else 0))"
    by (simp only: list.map scanFiles_step)
  also have "\<dots> = Inr (count + (if included cutoff f then countMatches re (snd (snd f)) else 0)
                    + (\<Sum>(n, t, c) \<leftarrow> filter (included cutoff) fs. countMatches re c))"
    by (rule Cons.IH)
  also have "\<dots> = Inr (count + (\<Sum>(n, t, c) \<leftarrow> filter (included cutoff) (f # fs). countMatches re c))"
    by (cases f) (simp add: case_prod_beta)
  finally show ?case .
qed

subsection \<open>The pattern of an identifier of word characters and hyphens\<close>

lemma isWordChar_not_special:
  "isWordChar c \<Longrightarrow> \<not> isQuantChar c \<and> \<not> isSyntaxChar c \<and> c \<noteq> CHR ''.'' \<and> c \<noteq> CHR ''[''"
  by (auto simp: isWordChar_def isQuantChar_def isSyntaxChar_def isDigit_def codeUnit_def)

lemma replaceHyphens_head:
  "plainIdentifier s \<Longrightarrow> replaceHyphens s = [] \<or> \<not> isQuantChar (hd (replaceHyphens s))"
  by (cases s) (auto simp: plainIdentifier_def hyphenClass_def isQuantChar_def dest: isWordChar_not_special)

lemma parseTerms_plain:
  "plainIdentifier s \<Longrightarrow> parseTerms (replaceHyphens s) = Inr (plainRegex s)"
proof (induction s)
  case Nil
  show ?case by (simp add: plainRegex_def)
next
  case (Cons c cs)
  then have pc: "plainIdentifier cs" and c: "isWordChar c \<or> c = CHR ''-''"
    by (simp_all add: plainIdentifier_def)
  from Cons.IH [OF pc] have ih: "parseTerms (replaceHyphens cs) = Inr (plainRegex cs)" .
  from replaceHyphens_head [OF pc]
  have hd: "replaceHyphens cs = [] \<or> \<not> isQuantChar (hd (replaceHyphens cs))" .
  show ?case
  proof (cases "c = CHR ''-''")
    case True
    have q: "\<not> isQuantChar CHR ''[''" by (simp add: isQuantChar_def)
    have a: "parseAtom (CHR ''['' # tl hyphenClass @ replaceHyphens cs) = Some (SepClass, replaceHyphens cs)"
      by (simp add: hyphenClass_def)
    have "parseTerms (CHR ''['' # tl hyphenClass @ replaceHyphens cs)
            = consTerm (SepClass, Once) (parseTerms (replaceHyphens cs))"
    proof (cases "replaceHyphens cs")
      case Nil
      then show ?thesis
        using q a by (simp del: parseAtom.simps)
    next
      case (Cons q' rest')
      with hd have "\<not> isQuantChar q'" by simp
      with Cons q a show ?thesis by (simp del: parseAtom.simps)
    qed
    moreover have "replaceHyphens (c # cs) = CHR ''['' # tl hyphenClass @ replaceHyphens cs"
      using True by (simp add: hyphenClass_def)
    moreover have "plainRegex (c # cs) = (SepClass, Once) # plainRegex cs"
      using True by (simp add: plainRegex_def)
    ultimately show ?thesis by (simp only: ih consTerm.simps)
  next
    case False
    with c have w: "isWordChar c" by simp
    from isWordChar_not_special [OF w] have q: "\<not> isQuantChar c"
      and a: "parseAtom (c # replaceHyphens cs) = Some (Lit c, replaceHyphens cs)" by simp_all
    have "parseTerms (c # replaceHyphens cs) = consTerm (Lit c, Once) (parseTerms (replaceHyphens cs))"
    proof (cases "replaceHyphens cs")
      case Nil
      then show ?thesis using q a by (simp del: parseAtom.simps)
    next
      case (Cons q' rest')
      with hd have "\<not> isQuantChar q'" by simp
      with Cons q a show ?thesis by (simp del: parseAtom.simps)
    qed
    moreover have "replaceHyphens (c # cs) = c # replaceHyphens cs"
      using False by simp
    moreover have "plainRegex (c # cs) = (Lit c, Once) # plainRegex cs"
      using False by (simp add: plainRegex_def)
    ultimately show ?thesis by (simp only: ih consTerm.simps)
  qed
qed

lemma matchHere_plain:
  "occurrenceOf s mention \<Longrightarrow> matchHere (plainRegex s) (mention @ rest) = Some (length mention)"
proof (induction s mention rule: occurrenceOf.induct)
  case 1
  show ?case by (simp add: plainRegex_def)
next
  case (2 c cs t ts)
  then have "matchHere (plainRegex cs) (ts @ rest) = Some (length ts)" by simp
  moreover from "2.prems" have "atomMatches (if c = CHR ''-'' then SepClass else Lit c) t"
    by (auto split: if_splits)
  ultimately show ?case by (simp add: plainRegex_def)
qed simp_all

subsection \<open>The map of skills and the sort\<close>

lemma map_of_mapSet: "map_of (mapSet k v m) = (map_of m)(k \<mapsto> v)"
  by (induction m) (auto simp: fun_eq_iff)

lemma keys_mapSet: "fst ` set (mapSet k v m) = insert k (fst ` set m)"
  by (induction m) force+

lemma distinct_mapSet: "distinct (map fst m) \<Longrightarrow> distinct (map fst (mapSet k v m))"
proof (induction m)
  case Nil
  show ?case by simp
next
  case (Cons p m)
  obtain k' v' where p: "p = (k', v')" by (cases p)
  from Cons have "k' \<notin> set (map fst m)" and dm: "distinct (map fst (mapSet k v m))"
    by (simp_all add: p)
  then show ?case
    using Cons.prems by (auto simp: p keys_mapSet)
qed

lemma fold_mapSet_keys:
  "set (map fst (fold (\<lambda>s. mapSet (key s) s) ws m)) = set (map key ws) \<union> set (map fst m)"
  by (induction ws arbitrary: m) (auto simp: keys_mapSet)

lemma fold_mapSet_distinct:
  "distinct (map fst m) \<Longrightarrow> distinct (map fst (fold (\<lambda>s. mapSet (key s) s) ws m))"
  by (induction ws arbitrary: m) (auto simp: distinct_mapSet)

lemma fold_mapSet_map_of:
  "map_of (fold (\<lambda>s. mapSet (key s) s) ws m)
     = map_of m ++ map_of (rev (map (\<lambda>s. (key s, s)) ws))"
proof (induction ws arbitrary: m)
  case Nil
  show ?case by simp
next
  case (Cons w ws)
  have "map_of (fold (\<lambda>s. mapSet (key s) s) (w # ws) m)
          = map_of (mapSet (key w) w m) ++ map_of (rev (map (\<lambda>s. (key s, s)) ws))"
    by (simp add: Cons.IH)
  also have "\<dots> = (map_of m ++ [key w \<mapsto> w]) ++ map_of (rev (map (\<lambda>s. (key s, s)) ws))"
    by (simp add: map_of_mapSet)
  also have "\<dots> = map_of m ++ map_of (rev (map (\<lambda>s. (key s, s)) (w # ws)))"
    by (simp add: map_add_assoc del: map_add_upd)
  finally show ?case .
qed

lemma map_of_rev_lastWrite:
  "map_of (rev (map (\<lambda>s. (dirName s, s)) ws)) d = lastWrite ws d"
proof (induction ws rule: rev_induct)
  case Nil
  show ?case by (simp add: lastWrite_def)
next
  case (snoc w ws)
  show ?case
  proof (cases "dirName w = d")
    case True
    then show ?thesis
      by (simp add: lastWrite_def split: list.splits) (metis append_is_Nil_conv last_ConsR last_snoc list.distinct(1) snoc_eq_iff_butlast)
  next
    case False
    with snoc show ?thesis by (simp add: lastWrite_def)
  qed
qed

lemma fold_mapSet_lastWrite: "map_of (fold (\<lambda>s. mapSet (dirName s) s) ws []) d = lastWrite ws d"
  by (simp add: fold_mapSet_map_of [of dirName] map_of_rev_lastWrite)

lemma lw_in: "lastWrite ws k = Some v \<Longrightarrow> v \<in> set ws \<and> dirName v = k"
proof -
  assume a: "lastWrite ws k = Some v"
  define xs where "xs = filter (\<lambda>s. dirName s = k) ws"
  from a have "xs \<noteq> []" and "v = last xs"
    by (auto simp: lastWrite_def xs_def split: list.splits)
  then have "v \<in> set xs" by simp
  then show ?thesis by (simp add: xs_def)
qed

lemma set_insertBy: "set (insertBy cmp x ys) = insert x (set ys)"
  by (induction ys) auto

lemma set_sortBy: "set (sortBy cmp xs) = set xs"
  by (induction xs) (auto simp: sortBy_def set_insertBy)

lemma map_insertBy:
  "map f (insertBy (\<lambda>a b. cmp (f a) (f b)) x ys) = insertBy cmp (f x) (map f ys)"
  by (induction ys) auto

lemma map_sortBy: "map f (sortBy (\<lambda>a b. cmp (f a) (f b)) xs) = sortBy cmp (map f xs)"
  by (induction xs) (auto simp: sortBy_def map_insertBy)

lemma distinct_insertBy: "distinct (insertBy cmp x ys) \<longleftrightarrow> x \<notin> set ys \<and> distinct ys"
  by (induction ys) (auto simp: set_insertBy)

lemma distinct_sortBy: "distinct (sortBy cmp xs) \<longleftrightarrow> distinct xs"
  by (induction xs) (auto simp: sortBy_def distinct_insertBy set_sortBy [unfolded sortBy_def])

lemma sorted_insertBy:
  assumes "consistentComparator cmp" and "sorted_wrt (\<lambda>a b. cmp a b \<le> 0) ys"
  shows "sorted_wrt (\<lambda>a b. cmp a b \<le> 0) (insertBy cmp x ys)"
  using assms(2)
proof (induction ys)
  case Nil
  show ?case by simp
next
  case (Cons y ys)
  from assms(1) have total: "\<And>a b. cmp a b \<le> 0 \<or> cmp b a \<le> 0"
    and trans: "\<And>a b c. cmp a b \<le> 0 \<Longrightarrow> cmp b c \<le> 0 \<Longrightarrow> cmp a c \<le> 0"
    unfolding consistentComparator_def by blast+
  show ?case
  proof (cases "cmp x y \<le> 0")
    case True
    with Cons.prems trans show ?thesis by auto
  next
    case False
    with total have "cmp y x \<le> 0" by blast
    with False Cons show ?thesis by (auto simp: set_insertBy)
  qed
qed

lemma sorted_sortBy:
  "consistentComparator cmp \<Longrightarrow> sorted_wrt (\<lambda>a b. cmp a b \<le> 0) (sortBy cmp xs)"
  by (induction xs) (auto simp: sortBy_def sorted_insertBy)

lemma dirName_withSource: "dirName (withSource l s) = dirName s"
  by (simp add: withSource_def skill.extend_def)

lemma readSkills_readable:
  "list_all (\<lambda>e. \<not> (isDirectory e \<and> skillFile e = Unreadable)) entries \<Longrightarrow>
   readSkills jsonParse dir entries
     = Inr (List.map_filter
              (\<lambda>e. map_option (makeSkill jsonParse dir (direntName e)) (descriptor e)) entries)"
proof (induction entries)
  case Nil
  show ?case by (simp add: map_filter_simps)
next
  case (Cons e es)
  then show ?case
    by (cases "skillFile e") (auto simp: map_filter_simps descriptor_def)
qed

lemma map_map_filter: "map f (List.map_filter g xs) = List.map_filter (\<lambda>x. map_option f (g x)) xs"
  by (induction xs) (auto simp: map_filter_simps split: option.splits)

lemma getSkillsFromDir_readable:
  assumes "readableRoot r"
  shows "\<exists>skills. getSkillsFromDir jsonParse r = Inr skills
           \<and> map (withSource (rootLabel r)) skills = skillsIn jsonParse r"
proof (cases "rootEntries r")
  case Absent
  then show ?thesis by (simp add: getSkillsFromDir_def skillsIn_def)
next
  case NotListable
  with assms show ?thesis by (simp add: readableRoot_def)
next
  case (Listing entries)
  with assms have "list_all (\<lambda>e. \<not> (isDirectory e \<and> skillFile e = Unreadable)) entries"
    by (simp add: readableRoot_def)
  from readSkills_readable [OF this] Listing show ?thesis
    by (simp add: getSkillsFromDir_def skillsIn_def map_map_filter option.map_comp comp_def)
qed

lemma collectSkills_readable:
  "list_all readableRoot roots \<Longrightarrow>
   collectSkills jsonParse roots m
     = Inr (fold (\<lambda>s. mapSet (dirName s) s) (writes jsonParse roots) m)"
proof (induction roots arbitrary: m)
  case Nil
  show ?case by (simp add: writes_def)
next
  case (Cons r roots)
  then have "readableRoot r" and rest: "list_all readableRoot roots" by simp_all
  from getSkillsFromDir_readable [OF this(1), of jsonParse]
  obtain skills where g: "getSkillsFromDir jsonParse r = Inr skills"
    and s: "map (withSource (rootLabel r)) skills = skillsIn jsonParse r" by blast
  have "fold (\<lambda>s. mapSet (dirName s) (withSource (rootLabel r) s)) skills m
          = fold (\<lambda>s. mapSet (dirName s) s) (map (withSource (rootLabel r)) skills) m"
    by (simp add: fold_map comp_def dirName_withSource)
  with g s Cons.IH [OF rest] show ?case by (simp add: writes_def)
qed

lemma set_skillsIn_names:
  "readableRoot r \<Longrightarrow>
   set (map dirName (skillsIn jsonParse r))
     = set (case rootEntries r of
              Listing entries \<Rightarrow>
                map direntName (filter (\<lambda>e. isDirectory e \<and> skillFile e \<noteq> Missing) entries)
            | _ \<Rightarrow> [])"
proof (cases "rootEntries r")
  case (Listing entries)
  assume "readableRoot r"
  with Listing have "list_all (\<lambda>e. \<not> (isDirectory e \<and> skillFile e = Unreadable)) entries"
    by (simp add: readableRoot_def)
  then have "map dirName (List.map_filter
            (\<lambda>e. map_option
               (\<lambda>content. withSource (rootLabel r)
                  (makeSkill jsonParse (rootPath r) (direntName e) content))
               (descriptor e))
            entries) = map direntName (filter (\<lambda>e. isDirectory e \<and> skillFile e \<noteq> Missing) entries)"
  proof (induction entries)
    case Nil
    show ?case by (simp add: map_filter_simps)
  next
    case (Cons e es)
    then show ?case
      by (cases "skillFile e")
        (auto simp: map_filter_simps descriptor_def dirName_withSource makeSkill_def Let_def)
  qed
  with Listing show ?thesis by (simp add: skillsIn_def)
qed (simp_all add: skillsIn_def)

lemma set_writes_names:
  "list_all readableRoot roots \<Longrightarrow>
   set (map dirName (writes jsonParse roots)) = set (skillDirNames roots)"
proof (induction roots)
  case Nil
  show ?case by (simp add: writes_def skillDirNames_def)
next
  case (Cons r roots)
  then have r: "readableRoot r" and "list_all readableRoot roots" by simp_all
  with Cons.IH have "set (map dirName (writes jsonParse roots)) = set (skillDirNames roots)"
    by simp
  with set_skillsIn_names [OF r, of jsonParse] show ?case
    by (simp add: writes_def skillDirNames_def)
qed

subsection \<open>Headers\<close>

lemma untilClose_None_iff:
  "untilClose s = None \<longleftrightarrow> (\<nexists>body rest. s = body @ newline # ''---'' @ rest)"
proof (induction s)
  case Nil
  show ?case by simp
next
  case (Cons c cs)
  show ?case
  proof (cases "take 4 (c # cs) = newline # ''---''")
    case True
    then have "c # cs = [] @ newline # ''---'' @ drop 4 (c # cs)"
      by (metis append_Nil append_take_drop_id append_Cons)
    with True show ?thesis by (metis untilClose.simps(2) option.distinct(1))
  next
    case False
    have shift: "(\<exists>body rest. c # cs = body @ newline # ''---'' @ rest)
            \<longleftrightarrow> (\<exists>body rest. cs = body @ newline # ''---'' @ rest)"
    proof
      assume "\<exists>body rest. c # cs = body @ newline # ''---'' @ rest"
      then obtain body rest where eq: "c # cs = body @ newline # ''---'' @ rest" by blast
      show "\<exists>body rest. cs = body @ newline # ''---'' @ rest"
      proof (cases body)
        case Nil
        with eq have "take 4 (c # cs) = newline # ''---''" by simp
        with False show ?thesis by simp
      next
        case (Cons b body')
        with eq have "cs = body' @ newline # ''---'' @ rest" by simp
        then show ?thesis by blast
      qed
    next
      assume "\<exists>body rest. cs = body @ newline # ''---'' @ rest"
      then obtain body rest where "cs = body @ newline # ''---'' @ rest" by blast
      then have "c # cs = (c # body) @ newline # ''---'' @ rest" by simp
      then show "\<exists>body rest. c # cs = body @ newline # ''---'' @ rest" by blast
    qed
    from False have "untilClose (c # cs) = map_option ((#) c) (untilClose cs)"
      by (simp only: untilClose.simps if_False)
    then have step: "untilClose (c # cs) = None \<longleftrightarrow> untilClose cs = None" by simp
    show ?thesis by (simp only: step shift Cons.IH)
  qed
qed

lemma headerBody_None_iff: "headerBody content = None \<longleftrightarrow> \<not> hasLeadingHeader content"
proof (cases "take 4 content = ''---'' @ [newline]")
  case True
  then have c: "content = ''---'' @ [newline] @ drop 4 content"
    by (metis append_take_drop_id append_assoc)
  have "hasLeadingHeader content
          \<longleftrightarrow> (\<exists>body rest. drop 4 content = body @ newline # ''---'' @ rest)"
  proof
    assume "hasLeadingHeader content"
    then obtain body rest where "content = ''---'' @ [newline] @ body @ [newline] @ ''---'' @ rest"
      unfolding hasLeadingHeader_def by blast
    then have "drop 4 content = body @ newline # ''---'' @ rest" by simp
    then show "\<exists>body rest. drop 4 content = body @ newline # ''---'' @ rest" by blast
  next
    assume "\<exists>body rest. drop 4 content = body @ newline # ''---'' @ rest"
    then obtain body rest where "drop 4 content = body @ newline # ''---'' @ rest" by blast
    with c have "content = ''---'' @ [newline] @ body @ [newline] @ ''---'' @ rest" by simp
    then show "hasLeadingHeader content" unfolding hasLeadingHeader_def by blast
  qed
  with True show ?thesis by (simp add: headerBody_def untilClose_None_iff)
next
  case False
  have "\<not> hasLeadingHeader content"
  proof
    assume "hasLeadingHeader content"
    then obtain body rest where "content = ''---'' @ [newline] @ body @ [newline] @ ''---'' @ rest"
      unfolding hasLeadingHeader_def by blast
    then have "take 4 content = ''---'' @ [newline]" by simp
    with False show False by simp
  qed
  with False show ?thesis by (simp add: headerBody_def)
qed

lemma makeSkill_no_header:
  "headerBody content = None \<Longrightarrow>
   makeSkill jsonParse dir n content
     = \<lparr>dirName = n, name = n, description = [], meta = JObj [], path = joinPath dir n\<rparr>"
  by (simp add: makeSkill_def parseFrontmatter_def stringOr_def valueOr_def)

lemma readSkills_member:
  "readSkills jsonParse dir entries = Inr skills \<Longrightarrow> e \<in> set entries \<Longrightarrow> isDirectory e \<Longrightarrow>
   skillFile e = Readable content \<Longrightarrow>
   makeSkill jsonParse dir (direntName e) content \<in> set skills"
proof (induction entries arbitrary: skills)
  case Nil
  then show ?case by simp
next
  case (Cons x xs)
  show ?case
  proof (cases "isDirectory x")
    case False
    with Cons show ?thesis by auto
  next
    case True
    show ?thesis
    proof (cases "skillFile x")
      case Missing
      with True Cons show ?thesis by auto
    next
      case Unreadable
      with True Cons.prems show ?thesis by simp
    next
      case (Readable c)
      with True Cons.prems(1) obtain rest where
        r: "readSkills jsonParse dir xs = Inr rest"
        and s: "skills = makeSkill jsonParse dir (direntName x) c # rest"
        by (auto split: sum.splits)
      show ?thesis
      proof (cases "e = x")
        case True
        with Readable Cons.prems(4) s show ?thesis by simp
      next
        case False
        with Cons.prems have "e \<in> set xs" by simp
        from Cons.IH [OF r this Cons.prems(3,4)] s show ?thesis by simp
      qed
    qed
  qed
qed

subsection \<open>Runs that differ in declared names\<close>

lemma dirName_eraseName: "dirName (eraseName s) = dirName s"
  by (simp add: eraseName_def)

lemma eraseName_withSource: "eraseName (withSource l s) = withSource l (eraseName s)"
  by (simp add: eraseName_def withSource_def skill.extend_def)

lemma skillCell_eraseName: "skillCell toStr (eraseName s) = skillCell toStr s"
  by (simp add: skillCell_def eraseName_def Let_def del: getNestedField.simps)

lemma makeSkill_renamed:
  "sameButName jsonParse c1 c2 \<Longrightarrow>
   eraseName (makeSkill jsonParse dir n c1) = eraseName (makeSkill jsonParse dir n c2)"
  by (simp add: sameButName_def makeSkill_def eraseName_def Let_def)

lemma readSkills_renamed:
  "list_all2 (direntRenamed jsonParse) es1 es2 \<Longrightarrow>
   map_sum id (map eraseName) (readSkills jsonParse dir es1)
     = map_sum id (map eraseName) (readSkills jsonParse dir es2)"
proof (induction es1 es2 rule: list_all2_induct)
  case Nil
  show ?case by simp
next
  case (Cons e1 es1 e2 es2)
  from Cons.hyps(1) have n: "direntName e1 = direntName e2" and d: "isDirectory e1 = isDirectory e2"
    and f: "fileRenamed jsonParse (skillFile e1) (skillFile e2)"
    by (simp_all add: direntRenamed_def)
  show ?case
  proof (cases "isDirectory e1")
    case False
    with d Cons.IH show ?thesis by simp
  next
    case True
    show ?thesis
    proof (cases "skillFile e1")
      case Missing
      with f have "skillFile e2 = Missing" by (cases "skillFile e2") simp_all
      with Missing True d Cons.IH show ?thesis by simp
    next
      case Unreadable
      with f have "skillFile e2 = Unreadable" by (cases "skillFile e2") simp_all
      with Unreadable True d show ?thesis by simp
    next
      case (Readable c1)
      with f obtain c2 where c2: "skillFile e2 = Readable c2" and s: "sameButName jsonParse c1 c2"
        by (cases "skillFile e2") simp_all
      from makeSkill_renamed [OF s] n
      have "eraseName (makeSkill jsonParse dir (direntName e1) c1)
              = eraseName (makeSkill jsonParse dir (direntName e2) c2)" by simp
      with Readable c2 True d Cons.IH show ?thesis
        by (cases "readSkills jsonParse dir es1"; cases "readSkills jsonParse dir es2") simp_all
    qed
  qed
qed

lemma getSkillsFromDir_renamed:
  assumes "rootRenamed jsonParse r1 r2"
  shows "map_sum id (map eraseName) (getSkillsFromDir jsonParse r1)
           = map_sum id (map eraseName) (getSkillsFromDir jsonParse r2)"
proof -
  from assms have p: "rootPath r1 = rootPath r2"
    and l: "listingRenamed jsonParse (rootEntries r1) (rootEntries r2)"
    by (simp_all add: rootRenamed_def)
  show ?thesis
  proof (cases "rootEntries r1")
    case Absent
    with l have "rootEntries r2 = Absent" by (cases "rootEntries r2") simp_all
    with Absent show ?thesis by (simp add: getSkillsFromDir_def)
  next
    case NotListable
    with l have "rootEntries r2 = NotListable" by (cases "rootEntries r2") simp_all
    with NotListable show ?thesis by (simp add: getSkillsFromDir_def)
  next
    case (Listing es1)
    with l obtain es2 where e2: "rootEntries r2 = Listing es2"
      and r: "list_all2 (direntRenamed jsonParse) es1 es2"
      by (cases "rootEntries r2") simp_all
    from readSkills_renamed [OF r, of "rootPath r1"] Listing e2 p show ?thesis
      by (simp add: getSkillsFromDir_def)
  qed
qed

lemma map_mapSet: "map (apsnd f) (mapSet k v m) = mapSet k (f v) (map (apsnd f) m)"
  by (induction m) auto

lemma fold_set_renamed:
  "map eraseName skills1 = map eraseName skills2 \<Longrightarrow>
   map (apsnd eraseName) m1 = map (apsnd eraseName) m2 \<Longrightarrow>
   map (apsnd eraseName) (fold (\<lambda>s. mapSet (dirName s) (withSource l s)) skills1 m1)
     = map (apsnd eraseName) (fold (\<lambda>s. mapSet (dirName s) (withSource l s)) skills2 m2)"
proof (induction skills1 arbitrary: skills2 m1 m2)
  case Nil
  then show ?case by simp
next
  case (Cons s1 ss1)
  then obtain s2 ss2 where s2: "skills2 = s2 # ss2" and e: "eraseName s1 = eraseName s2"
    and r: "map eraseName ss1 = map eraseName ss2" by (cases skills2) auto
  from e have k: "dirName s1 = dirName s2" by (metis dirName_eraseName)
  have "map (apsnd eraseName) (mapSet (dirName s1) (withSource l s1) m1)
          = map (apsnd eraseName) (mapSet (dirName s2) (withSource l s2) m2)"
    by (simp add: map_mapSet eraseName_withSource e k Cons.prems(2))
  from Cons.IH [OF r this] s2 show ?case by simp
qed

lemma collectSkills_renamed:
  "list_all2 (rootRenamed jsonParse) roots1 roots2 \<Longrightarrow>
   map (apsnd eraseName) m1 = map (apsnd eraseName) m2 \<Longrightarrow>
   map_sum id (map (apsnd eraseName)) (collectSkills jsonParse roots1 m1)
     = map_sum id (map (apsnd eraseName)) (collectSkills jsonParse roots2 m2)"
proof (induction roots1 roots2 arbitrary: m1 m2 rule: list_all2_induct)
  case Nil
  then show ?case by simp
next
  case (Cons r1 rs1 r2 rs2)
  from Cons.hyps(1) have l: "rootLabel r1 = rootLabel r2" by (simp add: rootRenamed_def)
  note g = getSkillsFromDir_renamed [OF Cons.hyps(1)]
  show ?case
  proof (cases "getSkillsFromDir jsonParse r1")
    case (Inl err)
    with g show ?thesis by (cases "getSkillsFromDir jsonParse r2") simp_all
  next
    case (Inr skills1)
    with g obtain skills2 where i2: "getSkillsFromDir jsonParse r2 = Inr skills2"
      and e: "map eraseName skills1 = map eraseName skills2"
      by (cases "getSkillsFromDir jsonParse r2") simp_all
    from fold_set_renamed [OF e Cons.prems, of "rootLabel r1"] l
    have "map (apsnd eraseName)
            (fold (\<lambda>s. mapSet (dirName s) (withSource (rootLabel r1) s)) skills1 m1)
        = map (apsnd eraseName)
            (fold (\<lambda>s. mapSet (dirName s) (withSource (rootLabel r2) s)) skills2 m2)"
      by simp
    from Cons.IH [OF this] Inr i2 show ?thesis by simp
  qed
qed

lemma map_insertBy_key:
  "(\<And>a. key (f a) = key a) \<Longrightarrow>
   map f (insertBy (\<lambda>a b. cmp (key a) (key b)) x ys)
     = insertBy (\<lambda>a b. cmp (key a) (key b)) (f x) (map f ys)"
  by (induction ys) auto

lemma map_sortBy_key:
  "(\<And>a. key (f a) = key a) \<Longrightarrow>
   map f (sortBy (\<lambda>a b. cmp (key a) (key b)) xs) = sortBy (\<lambda>a b. cmp (key a) (key b)) (map f xs)"
  by (induction xs) (simp_all add: sortBy_def map_insertBy_key)

lemma allSkills_renamed:
  assumes "list_all2 (rootRenamed jsonParse) roots1 roots2"
  shows "map_sum id (map eraseName) (allSkills localeCompare jsonParse roots1)
           = map_sum id (map eraseName) (allSkills localeCompare jsonParse roots2)"
proof -
  note c = collectSkills_renamed [OF assms, of "[]" "[]"]
  show ?thesis
  proof (cases "collectSkills jsonParse roots1 []")
    case (Inl err)
    with c show ?thesis by (cases "collectSkills jsonParse roots2 []") (simp_all add: allSkills_def)
  next
    case (Inr m1)
    with c obtain m2 where i2: "collectSkills jsonParse roots2 [] = Inr m2"
      and e: "map (apsnd eraseName) m1 = map (apsnd eraseName) m2"
      by (cases "collectSkills jsonParse roots2 []") simp_all
    from e have "map snd (map (apsnd eraseName) m1) = map snd (map (apsnd eraseName) m2)"
      by simp
    then have "map eraseName (map snd m1) = map eraseName (map snd m2)"
      by (simp add: comp_def)
    with Inr i2 show ?thesis
      by (simp add: allSkills_def map_sortBy_key [where key = dirName and f = eraseName, OF dirName_eraseName])
  qed
qed

subsection \<open>Totals\<close>

lemma fold_tallyInc_update:
  "update (fold tallyInc (map (\<lambda>(h, u, hb). recommend h u hb) inputs) t) = update t"
proof (induction inputs arbitrary: t)
  case Nil
  show ?case by simp
next
  case (Cons x xs)
  obtain h u hb where x: "x = (h, u, hb)" by (cases x)
  have "update (tallyInc (recommend h u hb) t) = update t"
    by (simp add: recommend_def)
  with Cons.IH [of "tallyInc (recommend h u hb) t"] x show ?case by simp
qed

subsection \<open>Worked examples\<close>

lemma hub_example:
  "hubOf False True (Some ''alpha v1.0.0  Alpha  (0.448)'') ''alpha''
     = \<lparr>available = True, version = ''1.0.0''\<rparr>"
  by code_simp

lemma usage_example_pattern:
  "usagePattern ''alpha''
     = Inr [(Lit CHR ''a'', Once), (Lit CHR ''l'', Once), (Lit CHR ''p'', Once),
            (Lit CHR ''h'', Once), (Lit CHR ''a'', Once)]"
  by code_simp

lemma usage_example_sum:
  "(\<Sum>(name, mtime, content) \<leftarrow>
       filter (included \<lparr>cutoffTime = 1700000000000, cutoffStr = ''2023-11-14''\<rparr>)
         [(''2023-11-20.md'', 0, ''alpha and Alpha''), (''2023-11-01.md'', 1800000000000, ''alpha''),
          (''notes.md'', 1700000000000, ''alpha''), (''old.log'', 1600000000000, ''alpha''),
          (''x.txt'', 1800000000000, ''alpha'')].
       countMatches [(Lit CHR ''a'', Once), (Lit CHR ''l'', Once), (Lit CHR ''p'', Once),
            (Lit CHR ''h'', Once), (Lit CHR ''a'', Once)] content) = 3"
  by code_simp

lemma string_comparator_consistent:
  "consistentComparator (\<lambda>a b :: string. if a < b then - 1 else if a = b then 0 else 1)"
  by (auto simp: consistentComparator_def)

lemma rows_example_readable:
  "list_all readableRoot
     [\<lparr>rootPath = ''/a'', rootLabel = ''/a'', rootEntries = Listing
         [\<lparr>direntName = ''beta'', isDirectory = True, skillFile = Readable ''# beta''\<rparr>,
          \<lparr>direntName = ''alpha'', isDirectory = True, skillFile = Readable ''# old alpha''\<rparr>,
          \<lparr>direntName = ''notes.txt'', isDirectory = False, skillFile = Missing\<rparr>,
          \<lparr>direntName = ''empty'', isDirectory = True, skillFile = Missing\<rparr>]\<rparr>,
      \<lparr>rootPath = ''/gone'', rootLabel = ''/gone'', rootEntries = Absent\<rparr>,
      \<lparr>rootPath = ''/b'', rootLabel = ''~/b'', rootEntries = Listing
         [\<lparr>direntName = ''alpha'', isDirectory = True, skillFile = Readable ''# new alpha''\<rparr>]\<rparr>]"
  by (simp add: readableRoot_def)

lemma rows_example_run:
  "allSkills (\<lambda>a b. if a < b then - 1 else if a = b then 0 else 1) (\<lambda>s. None)
     [\<lparr>rootPath = ''/a'', rootLabel = ''/a'', rootEntries = Listing
         [\<lparr>direntName = ''beta'', isDirectory = True, skillFile = Readable ''# beta''\<rparr>,
          \<lparr>direntName = ''alpha'', isDirectory = True, skillFile = Readable ''# old alpha''\<rparr>,
          \<lparr>direntName = ''notes.txt'', isDirectory = False, skillFile = Missing\<rparr>,
          \<lparr>direntName = ''empty'', isDirectory = True, skillFile = Missing\<rparr>]\<rparr>,
      \<lparr>rootPath = ''/gone'', rootLabel = ''/gone'', rootEntries = Absent\<rparr>,
      \<lparr>rootPath = ''/b'', rootLabel = ''~/b'', rootEntries = Listing
         [\<lparr>direntName = ''alpha'', isDirectory = True, skillFile = Readable ''# new alpha''\<rparr>]\<rparr>]
   = Inr [\<lparr>dirName = ''alpha'', name = ''alpha'', description = [], meta = JObj [],
           path = ''/b/alpha/SKILL.md'', source = ''~/b''\<rparr>,
          \<lparr>dirName = ''beta'', name = ''beta'', description = [], meta = JObj [],
           path = ''/a/beta/SKILL.md'', source = ''/a''\<rparr>]"
  by code_simp

lemma headerless_example:
  "headerBody (''# Weather'' @ [newline] @ ''---'' @ [newline] @ ''name: w'' @ [newline] @ ''---'') = None"
  by code_simp

lemma headerless_example_run:
  "getSkillsFromDir (\<lambda>s. None)
     \<lparr>rootPath = ''/a'', rootLabel = ''/a'', rootEntries = Listing
        [\<lparr>direntName = ''weather'', isDirectory = True,
          skillFile = Readable (''# Weather'' @ [newline] @ ''---'' @ [newline] @ ''name: w'' @ [newline] @ ''---'')\<rparr>]\<rparr>
   = Inr [\<lparr>dirName = ''weather'', name = ''weather'', description = [], meta = JObj [],
           path = ''/a/weather/SKILL.md''\<rparr>]"
  by code_simp

lemma rename_example_before:
  "parseFrontmatter (\<lambda>s. None)
     (''---'' @ [newline] @ ''name: beta'' @ [newline] @ ''description: B'' @ [newline] @ ''---'')
   = [(''name'', JStr ''beta''), (''description'', JStr ''B'')]"
  by code_simp

lemma rename_example_after:
  "parseFrontmatter (\<lambda>s. None)
     (''---'' @ [newline] @ ''name: aardvark'' @ [newline] @ ''description: B'' @ [newline] @ ''---'')
   = [(''name'', JStr ''aardvark''), (''description'', JStr ''B'')]"
  by code_simp

lemma rename_example_related:
  "list_all2 (rootRenamed (\<lambda>s. None))
     [\<lparr>rootPath = ''/a'', rootLabel = ''/a'', rootEntries = Listing
         [\<lparr>direntName = ''beta'', isDirectory = True, skillFile = Readable
             (''---'' @ [newline] @ ''name: beta'' @ [newline] @ ''description: B'' @ [newline] @ ''---'')\<rparr>,
          \<lparr>direntName = ''alpha'', isDirectory = True, skillFile = Readable ''# alpha''\<rparr>]\<rparr>]
     [\<lparr>rootPath = ''/a'', rootLabel = ''/a'', rootEntries = Listing
         [\<lparr>direntName = ''beta'', isDirectory = True, skillFile = Readable
             (''---'' @ [newline] @ ''name: aardvark'' @ [newline] @ ''description: B'' @ [newline] @ ''---'')\<rparr>,
          \<lparr>direntName = ''alpha'', isDirectory = True, skillFile = Readable ''# alpha''\<rparr>]\<rparr>]"
proof -
  have "sameButName (\<lambda>s. None)
      (''---'' @ [newline] @ ''name: beta'' @ [newline] @ ''description: B'' @ [newline] @ ''---'')
      (''---'' @ [newline] @ ''name: aardvark'' @ [newline] @ ''description: B'' @ [newline] @ ''---'')"
    unfolding sameButName_def rename_example_before rename_example_after by simp
  moreover have "sameButName (\<lambda>s. None) ''# alpha'' ''# alpha''"
    by (simp add: sameButName_def)
  ultimately show ?thesis
    by (simp add: rootRenamed_def direntRenamed_def)
qed

lemma rename_example_run:
  "allSkills (\<lambda>a b. if a < b then - 1 else if a = b then 0 else 1) (\<lambda>s. None)
     [\<lparr>rootPath = ''/a'', rootLabel = ''/a'', rootEntries = Listing
         [\<lparr>direntName = ''beta'', isDirectory = True, skillFile = Readable
             (''---'' @ [newline] @ ''name: aardvark'' @ [newline] @ ''description: B'' @ [newline] @ ''---'')\<rparr>,
          \<lparr>direntName = ''alpha'', isDirectory = True, skillFile = Readable ''# alpha''\<rparr>]\<rparr>]
   = Inr [\<lparr>dirName = ''alpha'', name = ''alpha'', description = [], meta = JObj [],
           path = ''/a/alpha/SKILL.md'', source = ''/a''\<rparr>,
          \<lparr>dirName = ''beta'', name = ''aardvark'', description = ''B'', meta = JObj [],
           path = ''/a/beta/SKILL.md'', source = ''/a''\<rparr>]"
  by code_simp

section \<open>The claims\<close>

text \<open>
  C1. Whenever the health result lists at least one missing required executable, the
  recommendation is \<open>remove\<close>, whatever the usage count and the registry result are.
\<close>

theorem missing_bin_removes:
  "missingBins h \<noteq> [] \<Longrightarrow> recommend h usage hb = Remove"
  by (simp add: recommend_def)

theorem missing_bin_removes_witness:
  "recommend \<lparr>missingBins = [''zzznotarealbin''], missingEnvs = [], bins = [''zzznotarealbin''], envs = []\<rparr>
      5 \<lparr>available = True, version = ''1.0.0''\<rparr> = Remove"
proof -
  have "missingBins \<lparr>missingBins = [''zzznotarealbin''], missingEnvs = [],
          bins = [''zzznotarealbin''], envs = []\<rparr> \<noteq> []"
    by simp
  then show ?thesis by (rule missing_bin_removes)
qed

text \<open>
  C2. With no missing executable and a registry version other than \<open>"not found"\<close>, \<open>"n/a"\<close>
  and \<open>"error"\<close>, the recommendation is \<open>keep\<close> for a positive usage count and \<open>review\<close> for
  the count 0.
\<close>

theorem registry_version_keep_or_review:
  assumes "missingBins h = []"
    and "version hb \<noteq> ''not found''" and "version hb \<noteq> ''n/a''" and "version hb \<noteq> ''error''"
  shows "recommend h usage hb = (if usage > 0 then Keep else Review)"
  using assms by (simp add: recommend_def)

theorem registry_version_keep_or_review_witness:
  "recommend \<lparr>missingBins = [], missingEnvs = [''API_KEY''], bins = [''curl''], envs = [''API_KEY'']\<rparr>
      3 (hubOf False True (Some ''alpha v1.0.0  Alpha  (0.448)'') ''alpha'') = Keep
   \<and> recommend \<lparr>missingBins = [], missingEnvs = [''API_KEY''], bins = [''curl''], envs = [''API_KEY'']\<rparr>
      0 (hubOf False True (Some ''alpha v1.0.0  Alpha  (0.448)'') ''alpha'') = Review"
proof -
  let ?h = "\<lparr>missingBins = [], missingEnvs = [''API_KEY''], bins = [''curl''], envs = [''API_KEY'']\<rparr>"
  let ?hb = "hubOf False True (Some ''alpha v1.0.0  Alpha  (0.448)'') ''alpha''"
  have v: "version ?hb = ''1.0.0''" by (simp add: hub_example)
  have m: "missingBins ?h = []" by simp
  have "recommend ?h 3 ?hb = (if (3::nat) > 0 then Keep else Review)"
    by (rule registry_version_keep_or_review [OF m]) (simp_all add: v)
  moreover have "recommend ?h 0 ?hb = (if (0::nat) > 0 then Keep else Review)"
    by (rule registry_version_keep_or_review [OF m]) (simp_all add: v)
  ultimately show ?thesis by simp
qed

text \<open>
  C3. The recommendation is always one of \<open>keep\<close>, \<open>review\<close>, \<open>remove\<close> and never \<open>update\<close>;
  so the \<open>update\<close> slot of the tally of any list of results is 0.
\<close>

theorem update_never_recommended:
  "recommend h usage hb \<in> {Keep, Review, Remove}
   \<and> recommend h usage hb \<noteq> Update
   \<and> update (tallyOf (map (\<lambda>(h, u, hb). recommend h u hb) inputs)) = 0"
proof -
  have r: "recommend h usage hb \<in> {Keep, Review, Remove}"
    by (simp add: recommend_def)
  have "update (tallyOf (map (\<lambda>(h, u, hb). recommend h u hb) inputs)) = update tally0"
    unfolding tallyOf_def by (rule fold_tallyInc_update)
  then have "update (tallyOf (map (\<lambda>(h, u, hb). recommend h u hb) inputs)) = 0"
    by (simp add: tally0_def)
  with r show ?thesis by auto
qed

text \<open>
  C4. When the log directory holds regular files, the cutoff is a valid date and the
  pattern of the skill name compiles, the scan returns the sum, over the included files,
  of the number of matches of the pattern in the file's text. A file named
  \<open>YYYY-MM-DD.md\<close> is included exactly when its date string is lexicographically at or
  after the cutoff date string; any other file ending in \<open>.log\<close> or \<open>.md\<close> exactly when its
  modification time is at or after the cutoff instant; no other file is.
\<close>

theorem usage_count_sums_included_files:
  assumes "memoryDir env = Listing (map regularFile fs)"
    and "daysBack env = Some n" and "dateBefore env n = Some cutoff"
    and "usagePattern skillName = Inr pattern"
  shows "checkUsage env skillName
           = Inr (\<Sum>(name, mtime, content) \<leftarrow> filter (included cutoff) fs. countMatches pattern content)"
  using assms by (simp add: checkUsage_def cutoffDate_def scanFiles_regular)

theorem usage_count_sums_included_files_witness:
  "checkUsage
     \<lparr>memoryDir = Listing (map regularFile
         [(''2023-11-20.md'', 0, ''alpha and Alpha''), (''2023-11-01.md'', 1800000000000, ''alpha''),
          (''notes.md'', 1700000000000, ''alpha''), (''old.log'', 1600000000000, ''alpha''),
          (''x.txt'', 1800000000000, ''alpha'')]),
      daysBack = Some 7,
      dateBefore = (\<lambda>n. Some \<lparr>cutoffTime = 1700000000000, cutoffStr = ''2023-11-14''\<rparr>)\<rparr>
     ''alpha'' = Inr 3"
proof -
  let ?fs = "[(''2023-11-20.md'', 0, ''alpha and Alpha''), (''2023-11-01.md'', 1800000000000, ''alpha''),
          (''notes.md'', 1700000000000, ''alpha''), (''old.log'', 1600000000000, ''alpha''),
          (''x.txt'', 1800000000000, ''alpha'')] :: (string \<times> int \<times> string) list"
  let ?cutoff = "\<lparr>cutoffTime = 1700000000000, cutoffStr = ''2023-11-14''\<rparr>"
  let ?env = "\<lparr>memoryDir = Listing (map regularFile ?fs), daysBack = Some 7,
      dateBefore = (\<lambda>n. Some ?cutoff)\<rparr>"
  have "checkUsage ?env ''alpha''
         = Inr (\<Sum>(name, mtime, content) \<leftarrow> filter (included ?cutoff) ?fs.
                   countMatches [(Lit CHR ''a'', Once), (Lit CHR ''l'', Once), (Lit CHR ''p'', Once),
                      (Lit CHR ''h'', Once), (Lit CHR ''a'', Once)] content)"
    by (rule usage_count_sums_included_files [where n = 7]) (simp_all add: usage_example_pattern)
  then show ?thesis by (simp only: usage_example_sum)
qed

text \<open>
  C5 states that the pattern of every identifier matches the identifier's hyphenated and
  space-separated occurrences. The script puts the identifier into the pattern source
  without escaping it, so a \<open>+\<close> in a directory name is a quantifier: for the skill
  \<open>google+-poster\<close> and a log inside the window whose text mentions \<open>google+-poster\<close> and
  \<open>google+ poster\<close>, the scan counts no mention at all.
\<close>

theorem unescaped_plus_misses_own_name:
  "checkUsage
     \<lparr>memoryDir = Listing (map regularFile
         [(''2023-11-20.md'', 0, ''ran google+-poster, then google+ poster'')]),
      daysBack = Some 7,
      dateBefore = (\<lambda>n. Some \<lparr>cutoffTime = 1700000000000, cutoffStr = ''2023-11-14''\<rparr>)\<rparr>
     ''google+-poster'' = Inr 0"
  by code_simp

text \<open>
  C6. When every configured root is missing or readable, the run has exactly one row per
  directory name under which some root holds a \<open>SKILL.md\<close>; the row is the record written
  last under that name, which is the one of the latest root; and the rows are in the
  order of the comparator on directory names.
\<close>

theorem one_row_per_skill_directory:
  assumes cmp: "consistentComparator localeCompare"
    and readable: "list_all readableRoot roots"
  shows "\<exists>rows. allSkills localeCompare jsonParse roots = Inr rows
           \<and> distinct (map dirName rows)
           \<and> set (map dirName rows) = set (skillDirNames roots)
           \<and> length rows = length (remdups (skillDirNames roots))
           \<and> (\<forall>row \<in> set rows. lastWrite (writes jsonParse roots) (dirName row) = Some row)
           \<and> sorted_wrt (\<lambda>a b. localeCompare (dirName a) (dirName b) \<le> 0) rows"
proof -
  define ws where "ws = writes jsonParse roots"
  define m where "m = fold (\<lambda>s. mapSet (dirName s) s) ws []"
  define rows where "rows = sortBy (\<lambda>a b. localeCompare (dirName a) (dirName b)) (map snd m)"
  have run: "allSkills localeCompare jsonParse roots = Inr rows"
    by (simp add: allSkills_def collectSkills_readable [OF readable] rows_def m_def ws_def)
  have keys_distinct: "distinct (map fst m)"
    unfolding m_def by (rule fold_mapSet_distinct) simp
  have lookup: "map_of m d = lastWrite ws d" for d
    unfolding m_def by (rule fold_mapSet_lastWrite)
  have entry: "dirName v = k \<and> lastWrite ws k = Some v" if "(k, v) \<in> set m" for k v
  proof -
    from that keys_distinct have "map_of m k = Some v" by simp
    then have lw: "lastWrite ws k = Some v" by (simp add: lookup)
    with lw_in [OF lw] show ?thesis by simp
  qed
  then have fst_snd: "map (dirName \<circ> snd) m = map fst m"
    by (auto intro!: map_cong)
  have names: "map dirName rows = sortBy localeCompare (map fst m)"
    unfolding rows_def by (simp add: map_sortBy fst_snd)
  have d: "distinct (map dirName rows)"
    by (simp add: names distinct_sortBy keys_distinct)
  have "set (map fst m) = set (map dirName ws)"
    unfolding m_def using fold_mapSet_keys [of dirName ws "[]"] by simp
  then have s: "set (map dirName rows) = set (skillDirNames roots)"
    using set_writes_names [OF readable, of jsonParse] by (simp add: names set_sortBy ws_def)
  have l: "length rows = length (remdups (skillDirNames roots))"
  proof -
    have "length rows = card (set (map dirName rows))"
      using d distinct_card [of "map dirName rows"] by simp
    also have "\<dots> = length (remdups (skillDirNames roots))"
      by (simp only: s length_remdups_card_conv)
    finally show ?thesis .
  qed
  have w: "\<forall>row \<in> set rows. lastWrite (writes jsonParse roots) (dirName row) = Some row"
  proof
    fix row assume "row \<in> set rows"
    then have "row \<in> snd ` set m" by (simp add: rows_def set_sortBy)
    then obtain k where "(k, row) \<in> set m" by force
    from entry [OF this] show "lastWrite (writes jsonParse roots) (dirName row) = Some row"
      by (simp add: ws_def)
  qed
  have o: "sorted_wrt (\<lambda>a b. localeCompare (dirName a) (dirName b) \<le> 0) rows"
  proof -
    have "sorted_wrt (\<lambda>a b. localeCompare a b \<le> 0) (map dirName rows)"
      by (simp only: names sorted_sortBy [OF cmp])
    then show ?thesis by (simp add: sorted_wrt_map)
  qed
  from run d s l w o show ?thesis by blast
qed

theorem one_row_per_skill_directory_witness:
  "\<exists>rows.
     allSkills (\<lambda>a b. if a < b then - 1 else if a = b then 0 else 1) (\<lambda>s. None)
       [\<lparr>rootPath = ''/a'', rootLabel = ''/a'', rootEntries = Listing
           [\<lparr>direntName = ''beta'', isDirectory = True, skillFile = Readable ''# beta''\<rparr>,
            \<lparr>direntName = ''alpha'', isDirectory = True, skillFile = Readable ''# old alpha''\<rparr>,
            \<lparr>direntName = ''notes.txt'', isDirectory = False, skillFile = Missing\<rparr>,
            \<lparr>direntName = ''empty'', isDirectory = True, skillFile = Missing\<rparr>]\<rparr>,
        \<lparr>rootPath = ''/gone'', rootLabel = ''/gone'', rootEntries = Absent\<rparr>,
        \<lparr>rootPath = ''/b'', rootLabel = ''~/b'', rootEntries = Listing
           [\<lparr>direntName = ''alpha'', isDirectory = True, skillFile = Readable ''# new alpha''\<rparr>]\<rparr>]
       = Inr rows
     \<and> rows = [\<lparr>dirName = ''alpha'', name = ''alpha'', description = [], meta = JObj [],
                 path = ''/b/alpha/SKILL.md'', source = ''~/b''\<rparr>,
                \<lparr>dirName = ''beta'', name = ''beta'', description = [], meta = JObj [],
                 path = ''/a/beta/SKILL.md'', source = ''/a''\<rparr>]
     \<and> distinct (map dirName rows)
     \<and> length rows = 2
     \<and> sorted_wrt (\<lambda>a b. (if dirName a < dirName b then - 1 else if dirName a = dirName b then 0 else 1) \<le> (0::int)) rows"
proof -
  let ?cmp = "\<lambda>a b :: string. if a < b then - 1 else if a = b then (0::int) else 1"
  let ?roots = "[\<lparr>rootPath = ''/a'', rootLabel = ''/a'', rootEntries = Listing
           [\<lparr>direntName = ''beta'', isDirectory = True, skillFile = Readable ''# beta''\<rparr>,
            \<lparr>direntName = ''alpha'', isDirectory = True, skillFile = Readable ''# old alpha''\<rparr>,
            \<lparr>direntName = ''notes.txt'', isDirectory = False, skillFile = Missing\<rparr>,
            \<lparr>direntName = ''empty'', isDirectory = True, skillFile = Missing\<rparr>]\<rparr>,
        \<lparr>rootPath = ''/gone'', rootLabel = ''/gone'', rootEntries = Absent\<rparr>,
        \<lparr>rootPath = ''/b'', rootLabel = ''~/b'', rootEntries = Listing
           [\<lparr>direntName = ''alpha'', isDirectory = True, skillFile = Readable ''# new alpha''\<rparr>]\<rparr>]"
  from one_row_per_skill_directory
    [OF string_comparator_consistent rows_example_readable, of "\<lambda>s. None"]
  obtain rows where run: "allSkills ?cmp (\<lambda>s. None) ?roots = Inr rows"
    and d: "distinct (map dirName rows)"
    and l: "length rows = length (remdups (skillDirNames ?roots))"
    and s: "sorted_wrt (\<lambda>a b. ?cmp (dirName a) (dirName b) \<le> 0) rows"
    by blast
  from run have rows: "rows = [\<lparr>dirName = ''alpha'', name = ''alpha'', description = [], meta = JObj [],
                 path = ''/b/alpha/SKILL.md'', source = ''~/b''\<rparr>,
                \<lparr>dirName = ''beta'', name = ''beta'', description = [], meta = JObj [],
                 path = ''/a/beta/SKILL.md'', source = ''/a''\<rparr>]"
    by (simp only: rows_example_run sum.inject)
  have "length rows = 2" by (simp add: rows)
  with run rows d s show ?thesis by blast
qed

text \<open>
  C7. When the log directory does not exist, the scan returns the count 0 and throws
  nothing, for every skill name, every window size (also 0, and a window that is no
  number) and every clock.
\<close>

theorem missing_log_dir_counts_zero:
  "checkUsage \<lparr>memoryDir = Absent, daysBack = n, dateBefore = clock\<rparr> skillName = Inr 0"
  by (simp add: checkUsage_def)

theorem missing_log_dir_counts_zero_witness:
  "checkUsage \<lparr>memoryDir = Absent, daysBack = Some 0, dateBefore = (\<lambda>n. None)\<rparr> ''alpha'' = Inr 0
   \<and> checkUsage \<lparr>memoryDir = Absent, daysBack = None, dateBefore = (\<lambda>n. None)\<rparr> ''c++'' = Inr 0"
  using missing_log_dir_counts_zero [of "Some 0" "\<lambda>n. None" "''alpha''"]
    missing_log_dir_counts_zero [of None "\<lambda>n. None" "''c++''"]
  by (rule conjI)

text \<open>
  C8. Two runs whose roots differ only in the \<open>name\<close> fields of descriptors end alike: both
  fail with the same error, or both produce rows with the same directory names in the same
  order, the same cells in the \<open>Skill\<close> column and, the declared name apart, the same
  records.
\<close>

theorem rename_keeps_report_rows:
  assumes "list_all2 (rootRenamed jsonParse) roots1 roots2"
  shows "rowKeys localeCompare jsonParse roots1 = rowKeys localeCompare jsonParse roots2
       \<and> skillColumn toStr localeCompare jsonParse roots1
           = skillColumn toStr localeCompare jsonParse roots2
       \<and> map_sum id (map eraseName) (allSkills localeCompare jsonParse roots1)
           = map_sum id (map eraseName) (allSkills localeCompare jsonParse roots2)"
proof -
  note a = allSkills_renamed [OF assms, of localeCompare]
  show ?thesis
  proof (cases "allSkills localeCompare jsonParse roots1")
    case (Inl err)
    with a show ?thesis
      by (cases "allSkills localeCompare jsonParse roots2") (simp_all add: rowKeys_def skillColumn_def)
  next
    case (Inr rows1)
    with a obtain rows2 where i2: "allSkills localeCompare jsonParse roots2 = Inr rows2"
      and e: "map eraseName rows1 = map eraseName rows2"
      by (cases "allSkills localeCompare jsonParse roots2") simp_all
    from e have "map (dirName \<circ> eraseName) rows1 = map (dirName \<circ> eraseName) rows2"
      and "map (skillCell toStr \<circ> eraseName) rows1 = map (skillCell toStr \<circ> eraseName) rows2"
      by (metis map_map)+
    then have "map dirName rows1 = map dirName rows2"
      and "map (skillCell toStr) rows1 = map (skillCell toStr) rows2"
      by (simp_all add: comp_def dirName_eraseName skillCell_eraseName)
    with Inr i2 e show ?thesis by (simp add: rowKeys_def skillColumn_def)
  qed
qed

theorem rename_keeps_report_rows_witness:
  "rowKeys (\<lambda>a b. if a < b then - 1 else if a = b then 0 else 1) (\<lambda>s. None)
     [\<lparr>rootPath = ''/a'', rootLabel = ''/a'', rootEntries = Listing
         [\<lparr>direntName = ''beta'', isDirectory = True, skillFile = Readable
             (''---'' @ [newline] @ ''name: beta'' @ [newline] @ ''description: B'' @ [newline] @ ''---'')\<rparr>,
          \<lparr>direntName = ''alpha'', isDirectory = True, skillFile = Readable ''# alpha''\<rparr>]\<rparr>]
   = Inr [''alpha'', ''beta'']
   \<and> rowKeys (\<lambda>a b. if a < b then - 1 else if a = b then 0 else 1) (\<lambda>s. None)
     [\<lparr>rootPath = ''/a'', rootLabel = ''/a'', rootEntries = Listing
         [\<lparr>direntName = ''beta'', isDirectory = True, skillFile = Readable
             (''---'' @ [newline] @ ''name: aardvark'' @ [newline] @ ''description: B'' @ [newline] @ ''---'')\<rparr>,
          \<lparr>direntName = ''alpha'', isDirectory = True, skillFile = Readable ''# alpha''\<rparr>]\<rparr>]
   = Inr [''alpha'', ''beta'']"
proof -
  let ?cmp = "\<lambda>a b :: string. if a < b then - 1 else if a = b then (0::int) else 1"
  let ?after = "[\<lparr>rootPath = ''/a'', rootLabel = ''/a'', rootEntries = Listing
         [\<lparr>direntName = ''beta'', isDirectory = True, skillFile = Readable
             (''---'' @ [newline] @ ''name: aardvark'' @ [newline] @ ''description: B'' @ [newline] @ ''---'')\<rparr>,
          \<lparr>direntName = ''alpha'', isDirectory = True, skillFile = Readable ''# alpha''\<rparr>]\<rparr>]"
  have "rowKeys ?cmp (\<lambda>s. None) ?after = Inr [''alpha'', ''beta'']"
    unfolding rowKeys_def rename_example_run by simp
  with rename_keeps_report_rows [OF rename_example_related, of ?cmp "\<lambda>j. []"]
  show ?thesis by simp
qed

text \<open>
  C9. A \<open>SKILL.md\<close> whose content does not begin with a header is inventoried all the same:
  the skills read from its root contain the record with the name of the subdirectory as
  name, the empty description and the empty metadata object.
\<close>

theorem headerless_descriptor_inventoried:
  assumes "\<not> hasLeadingHeader content"
    and "rootEntries r = Listing entries" and "e \<in> set entries"
    and "isDirectory e" and "skillFile e = Readable content"
    and "getSkillsFromDir jsonParse r = Inr skills"
  shows "\<lparr>dirName = direntName e, name = direntName e, description = [], meta = JObj [],
          path = joinPath (rootPath r) (direntName e)\<rparr> \<in> set skills"
proof -
  from assms(1) have "headerBody content = None" by (simp add: headerBody_None_iff)
  then have "makeSkill jsonParse (rootPath r) (direntName e) content
      = \<lparr>dirName = direntName e, name = direntName e, description = [], meta = JObj [],
          path = joinPath (rootPath r) (direntName e)\<rparr>"
    by (rule makeSkill_no_header)
  moreover from assms(2,6) have "readSkills jsonParse (rootPath r) entries = Inr skills"
    by (simp add: getSkillsFromDir_def)
  from readSkills_member [OF this assms(3,4,5)]
  have "makeSkill jsonParse (rootPath r) (direntName e) content \<in> set skills" .
  ultimately show ?thesis by simp
qed

theorem headerless_descriptor_inventoried_witness:
  "\<not> hasLeadingHeader (''# Weather'' @ [newline] @ ''---'' @ [newline] @ ''name: w'' @ [newline] @ ''---'')
   \<and> getSkillsFromDir (\<lambda>s. None)
        \<lparr>rootPath = ''/a'', rootLabel = ''/a'', rootEntries = Listing
           [\<lparr>direntName = ''weather'', isDirectory = True,
             skillFile = Readable (''# Weather'' @ [newline] @ ''---'' @ [newline] @ ''name: w'' @ [newline] @ ''---'')\<rparr>]\<rparr>
      = Inr [\<lparr>dirName = ''weather'', name = ''weather'', description = [], meta = JObj [],
              path = ''/a/weather/SKILL.md''\<rparr>]
   \<and> \<lparr>dirName = ''weather'', name = ''weather'', description = [], meta = JObj [],
        path = joinPath ''/a'' ''weather''\<rparr>
      \<in> set [\<lparr>dirName = ''weather'', name = ''weather'', description = [], meta = JObj [],
               path = ''/a/weather/SKILL.md''\<rparr>]"
proof -
  let ?c = "''# Weather'' @ [newline] @ ''---'' @ [newline] @ ''name: w'' @ [newline] @ ''---''"
  let ?e = "\<lparr>direntName = ''weather'', isDirectory = True, skillFile = Readable ?c\<rparr>"
  let ?r = "\<lparr>rootPath = ''/a'', rootLabel = ''/a'', rootEntries = Listing [?e]\<rparr>"
  have h: "\<not> hasLeadingHeader ?c"
    using headerless_example headerBody_None_iff by blast
  have "\<lparr>dirName = direntName ?e, name = direntName ?e, description = [], meta = JObj [],
          path = joinPath (rootPath ?r) (direntName ?e)\<rparr>
        \<in> set [\<lparr>dirName = ''weather'', name = ''weather'', description = [], meta = JObj [],
               path = ''/a/weather/SKILL.md''\<rparr>]"
    by (rule headerless_descriptor_inventoried [OF h, where entries = "[?e]" and jsonParse = "\<lambda>s. None"])
       (simp_all only: headerless_example_run, simp_all)
  then have m: "\<lparr>dirName = ''weather'', name = ''weather'', description = [], meta = JObj [],
        path = joinPath ''/a'' ''weather''\<rparr>
      \<in> set [\<lparr>dirName = ''weather'', name = ''weather'', description = [], meta = JObj [],
               path = ''/a/weather/SKILL.md''\<rparr>]"
    by (simp only: dirent.simps skillRoot.simps)
  show ?thesis by (rule conjI [OF h conjI [OF headerless_example_run m]])
qed

text \<open>
  C10 states that the scan returns a count for every skill identifier. For the directory
  name \<open>c++\<close> the pattern source is \<open>c++\<close>, whose second \<open>+\<close> has nothing to repeat: the
  \<open>RegExp\<close> constructor throws a \<open>SyntaxError\<close> and the scan returns no count, even with an
  empty log directory.
\<close>

theorem unescaped_plus_throws:
  "checkUsage
     \<lparr>memoryDir = Listing [], daysBack = Some 7,
      dateBefore = (\<lambda>n. Some \<lparr>cutoffTime = 1700000000000, cutoffStr = ''2023-11-14''\<rparr>)\<rparr>
     ''c++'' = Inl SyntaxError"
  by (simp add: checkUsage_def cutoffDate_def usagePattern_def isQuantChar_def isSyntaxChar_def)

section \<open>Identifiers of word characters and hyphens\<close>

text \<open>
  For an identifier made of word characters and hyphens only, the pattern compiles and
  matches every occurrence of the identifier, wherever the occurrence stands in front of
  further text; and the scan of a log directory of regular files returns a count.
\<close>

lemma plain_identifier_matches_occurrences:
  assumes "plainIdentifier skillName"
  shows "\<exists>pattern. usagePattern skillName = Inr pattern
           \<and> (\<forall>mention rest. occurrenceOf skillName mention \<longrightarrow>
                  matchHere pattern (mention @ rest) = Some (length mention))"
  using assms by (simp add: usagePattern_def parseTerms_plain matchHere_plain)

lemma plain_identifier_scan_returns:
  assumes "plainIdentifier skillName"
    and "memoryDir env = Listing (map regularFile fs)" and "cutoffDate env = Some cutoff"
  shows "\<exists>n. checkUsage env skillName = Inr n"
  using assms by (simp add: checkUsage_def usagePattern_def parseTerms_plain scanFiles_regular)

end
